theory Spec2Isabelle
  imports Main "HOL-Library.Sublist"
begin

section \<open>The artman configuration loader (artman/config/loader.py)\<close>

text \<open>
  A shallow embedding of \<^verbatim>\<open>artman/config/loader.py\<close>. Python strings are
  \<^typ>\<open>string\<close>; every \<^verbatim>\<open>raise\<close> is an \<open>Inl\<close> of the result; the
  module logger is a list of entries returned next to the result; the file system, the
  process environment and the YAML/JSON/protobuf parsers are fields of an environment
  record. Paths follow \<^verbatim>\<open>posixpath\<close>, the \<^verbatim>\<open>os.path\<close> of a POSIX host.
\<close>

subsection \<open>Python string methods\<close>

definition startswith :: "string \<Rightarrow> string \<Rightarrow> bool" where
  \<comment> \<open>\<^verbatim>\<open>s.startswith(p)\<close>\<close>
  "startswith s p = prefix p s"

definition endswith :: "string \<Rightarrow> string \<Rightarrow> bool" where
  \<comment> \<open>\<^verbatim>\<open>s.endswith(p)\<close>\<close>
  "endswith s p = suffix p s"

fun contains :: "string \<Rightarrow> string \<Rightarrow> bool" where
  \<comment> \<open>\<^verbatim>\<open>sub in s\<close>, written \<open>contains sub s\<close>\<close>
  "contains sub [] = (sub = [])"
| "contains sub (c # cs) = (prefix sub (c # cs) \<or> contains sub cs)"

definition rstrip_sep :: "string \<Rightarrow> string" where
  \<comment> \<open>\<^verbatim>\<open>s.rstrip('/')\<close>\<close>
  "rstrip_sep s = rev (dropWhile (\<lambda>c. c = CHR ''/'') (rev s))"

definition rfind_sep_plus1 :: "string \<Rightarrow> nat" where
  \<comment> \<open>\<^verbatim>\<open>p.rfind('/') + 1\<close>: the index after the last separator, 0 when there is none\<close>
  "rfind_sep_plus1 p = length p - length (takeWhile (\<lambda>c. c \<noteq> CHR ''/'') (rev p))"

definition find_sep_from1 :: "string \<Rightarrow> nat option" where
  \<comment> \<open>\<^verbatim>\<open>p.find('/', 1)\<close>: \<open>None\<close> stands for the result -1\<close>
  "find_sep_from1 p =
     (let n = length (takeWhile (\<lambda>c. c \<noteq> CHR ''/'') (drop 1 p))
      in if 1 + n < length p then Some (1 + n) else None)"

subsection \<open>posixpath\<close>

definition isabs :: "string \<Rightarrow> bool" where
  "isabs p = startswith p ''/''"

definition dirname :: "string \<Rightarrow> string" where
  "dirname p =
     (let i = rfind_sep_plus1 p;
          head = take i p
      in if head \<noteq> [] \<and> head \<noteq> replicate (length head) (CHR ''/'')
         then rstrip_sep head else head)"

definition join :: "string \<Rightarrow> string \<Rightarrow> string" where
  \<comment> \<open>\<^verbatim>\<open>os.path.join(a, b)\<close> with one component after \<open>a\<close>\<close>
  "join a b =
     (if startswith b ''/'' then b
      else if a = [] \<or> endswith a ''/'' then a @ b
      else a @ ''/'' @ b)"

subsection \<open>Errors and log entries\<close>

datatype error =
    ValueError string
      \<comment> \<open>\<^verbatim>\<open>raise ValueError(msg)\<close> with the message as formatted\<close>
  | ValueError_no_artifact string "string list"
      \<comment> \<open>the \<^verbatim>\<open>ValueError\<close> of \<^verbatim>\<open>load_artifact_config\<close>: the two arguments of
          its format string, the requested name and the list \<^verbatim>\<open>valid_values\<close>\<close>
  | ParseError
      \<comment> \<open>\<^verbatim>\<open>json_format.ParseError\<close> or \<^verbatim>\<open>yaml.parser.ParserError\<close>, re-raised\<close>
  | OtherException
      \<comment> \<open>any other exception of \<^verbatim>\<open>open\<close>, \<^verbatim>\<open>yaml.load\<close> or \<^verbatim>\<open>json.dumps\<close>\<close>

datatype log_entry = Warn string | Error string

definition CONFIG_NOT_FOUND_ERROR_MESSAGE_FORMAT :: "string \<Rightarrow> string" where
  "CONFIG_NOT_FOUND_ERROR_MESSAGE_FORMAT p =
     ''Artman YAML cannot be found at `'' @ p @ ''`. Please check the file location.''"

definition INVALID_CONFIG_ERROR_MESSAGE_FORMAT :: "string \<Rightarrow> string" where
  "INVALID_CONFIG_ERROR_MESSAGE_FORMAT p = ''Artman YAML '' @ p @ '' is invalid.''"

definition INVALID_USER_CONFIG_ERROR_MESSAGE_FORMAT :: "string \<Rightarrow> string" where
  "INVALID_USER_CONFIG_ERROR_MESSAGE_FORMAT p = ''Artman user YAML '' @ p @ '' is invalid.''"

definition NO_USER_CONFIG_WARNING :: string where
  "NO_USER_CONFIG_WARNING =
     ''No artman user config defined. Use the default one for this '' @
     ''execution. Run `configure-artman` to set up user config.''"

definition duplicate_artifact_message :: "string \<Rightarrow> string" where
  "duplicate_artifact_message a =
     ''artifact `'' @ a @ ''` has been configured twice, please rename.''"

definition duplicate_target_message :: "string \<Rightarrow> string \<Rightarrow> string" where
  "duplicate_target_message t a =
     ''publish target `'' @ t @ ''` in artifact `'' @ a @ ''` has been '' @
     ''configured twice, please rename.''"

definition traversal_message :: "string \<Rightarrow> string \<Rightarrow> string \<Rightarrow> string" where
  "traversal_message field artman_config_path base =
     [CHR 0x22] @ ''..'' @ [CHR 0x22] @ '' is disallowed in `'' @ field @
     ''` field of `'' @ artman_config_path @ ''`. Please use either a '' @
     ''path relative to `'' @ base @ ''` (preferred), or an absolute path.''"

subsection \<open>The configuration messages\<close>

text \<open>
  Modelled from the spec: the protobuf schema \<^verbatim>\<open>artman/config/proto/config_pb2\<close>
  (messages \<^verbatim>\<open>Config\<close>, \<^verbatim>\<open>Artifact\<close> and its publish targets) is imported by the
  loader and is not among the sources. The fields are those the spec's data model lists.
  The loader itself names \<^verbatim>\<open>Artifact.NODEJS\<close> and \<^verbatim>\<open>Artifact.GRPC\<close>; the other
  languages are those the repository's tests name, the types are the four the spec
  lists (gapic-client, config-only, GRPC-client, core-proto-bundle). A proto3 singular
  field has no presence bit: it is set exactly when it differs from its default, the
  empty string or the enumeration's first value. The first value of the type
  enumeration is \<open>GAPIC\<close>: \<^verbatim>\<open>Artifact()\<close> and every artifact that writes no type
  read \<open>GAPIC\<close>, and an artifact that writes \<open>type: GAPIC\<close> is the same message as
  one that writes no type.
\<close>

datatype Language =
  LANGUAGE_UNSPECIFIED | CSHARP | GO | JAVA | NODEJS | PHP | PYTHON | RUBY

datatype Type =
  GAPIC | GAPIC_CONFIG | GRPC | PROTOBUF

record PublishTarget =
  name :: string
  repo_url :: string
  username :: string
  password :: string
  publish_env :: string

record Artifact =
  name :: string
  language :: Language
  type :: Type
  service_yaml :: string
  gapic_yaml :: string
  src_proto_paths :: "string list"
  publish_targets :: "PublishTarget list"

record Config =
  common :: Artifact
  artifacts :: "Artifact list"

definition MergeFrom :: "Artifact \<Rightarrow> Artifact \<Rightarrow> Artifact" where
  \<comment> \<open>\<^verbatim>\<open>dst.MergeFrom(src)\<close> of the protobuf library: a singular field set in \<open>src\<close>
      overwrites the field of \<open>dst\<close>, the elements of a repeated field of \<open>src\<close> are
      appended to the field of \<open>dst\<close>\<close>
  "MergeFrom dst src =
     \<lparr> name = (if name src \<noteq> [] then name src else name dst),
       language = (if language src \<noteq> LANGUAGE_UNSPECIFIED then language src else language dst),
       type = (if type src \<noteq> GAPIC then type src else type dst),
       service_yaml = (if service_yaml src \<noteq> [] then service_yaml src else service_yaml dst),
       gapic_yaml = (if gapic_yaml src \<noteq> [] then gapic_yaml src else gapic_yaml dst),
       src_proto_paths = src_proto_paths dst @ src_proto_paths src,
       publish_targets = publish_targets dst @ publish_targets src \<rparr>"

definition new_Artifact :: Artifact where
  \<comment> \<open>\<^verbatim>\<open>Artifact()\<close>: every field at its default\<close>
  "new_Artifact =
     \<lparr> name = [], language = LANGUAGE_UNSPECIFIED, type = GAPIC,
       service_yaml = [], gapic_yaml = [], src_proto_paths = [], publish_targets = [] \<rparr>"

definition CopyFrom :: "Artifact \<Rightarrow> Artifact \<Rightarrow> Artifact" where
  \<comment> \<open>\<^verbatim>\<open>dst.CopyFrom(src)\<close>: clear \<open>dst\<close>, then merge \<open>src\<close> into it\<close>
  "CopyFrom dst src = MergeFrom new_Artifact src"

subsection \<open>The environment\<close>

datatype 'a loaded = Parsed 'a | ParseFailure | OtherFailure

text \<open>
  What the loader reads from outside: \<^verbatim>\<open>os.path.exists\<close>, \<^verbatim>\<open>os.path.isfile\<close>, the
  outcome of opening a path and parsing its text into a \<^verbatim>\<open>Config\<close> or a
  \<^verbatim>\<open>UserConfig\<close> (\<open>ParseFailure\<close> when \<^verbatim>\<open>json_format.ParseError\<close> or
  \<^verbatim>\<open>yaml.parser.ParserError\<close> is raised, \<open>OtherFailure\<close> for any other exception:
  \<^verbatim>\<open>yaml.scanner.ScannerError\<close> on a file that is not well-formed YAML, such as one
  indented with a tab, or an error of \<^verbatim>\<open>open\<close>), a
  fresh \<^verbatim>\<open>UserConfig()\<close>, and what \<^verbatim>\<open>os.path.expanduser\<close> consults. The
  \<^verbatim>\<open>UserConfig\<close> schema is not among the sources; it is the type parameter.
\<close>

record 'u env =
  path_exists :: "string \<Rightarrow> bool"
  isfile :: "string \<Rightarrow> bool"
  load_Config :: "string \<Rightarrow> Config loaded"
  load_UserConfig :: "string \<Rightarrow> 'u loaded"
  new_UserConfig :: 'u
  environ_HOME :: "string option"
  pw_dir_of_uid :: "string option"
  pw_dir_of_name :: "string \<Rightarrow> string option"

definition expanduser :: "'u env \<Rightarrow> string \<Rightarrow> string" where
  \<comment> \<open>\<^verbatim>\<open>posixpath.expanduser\<close>\<close>
  "expanduser e path =
     (if \<not> startswith path ''~'' then path
      else
        let i = (case find_sep_from1 path of None \<Rightarrow> length path | Some j \<Rightarrow> j);
            userhome =
              (if i = 1
               then (case environ_HOME e of Some h \<Rightarrow> Some h | None \<Rightarrow> pw_dir_of_uid e)
               else pw_dir_of_name e (take (i - 1) (drop 1 path)))
        in case userhome of
             None \<Rightarrow> path
           | Some h \<Rightarrow>
               (let r = rstrip_sep h @ drop i path in if r = [] then ''/'' else r))"

subsection \<open>The loader\<close>

definition normalize_path :: "string \<Rightarrow> string \<Rightarrow> string \<Rightarrow> error + string" where
  "normalize_path path artman_config_path field =
     (if startswith path ''..'' \<or> contains ''/..'' path
      then Inl (ValueError
             (traversal_message field artman_config_path (dirname artman_config_path)))
      else if isabs path then Inr path
      else Inr (join (dirname artman_config_path) path))"

fun normalize_src_proto_paths :: "string list \<Rightarrow> string \<Rightarrow> string list \<Rightarrow> error + string list" where
  \<comment> \<open>the loop of \<^verbatim>\<open>_normalize_artifact_config\<close>; the second list is
      \<^verbatim>\<open>normalized_src_proto_paths\<close>\<close>
  "normalize_src_proto_paths [] artman_config_path normalized = Inr normalized"
| "normalize_src_proto_paths (src_proto_path # rest) artman_config_path normalized =
     (if startswith src_proto_path ''-''
      then (case normalize_path (drop 1 src_proto_path) artman_config_path ''src_proto_paths'' of
              Inl e \<Rightarrow> Inl e
            | Inr q \<Rightarrow>
                normalize_src_proto_paths rest artman_config_path (normalized @ [''-'' @ q]))
      else (case normalize_path src_proto_path artman_config_path ''src_proto_paths'' of
              Inl e \<Rightarrow> Inl e
            | Inr q \<Rightarrow>
                normalize_src_proto_paths rest artman_config_path (normalized @ [q])))"

definition normalize_artifact_config ::
  "'a Artifact_scheme \<Rightarrow> string \<Rightarrow> error + 'a Artifact_scheme" where
  "normalize_artifact_config artifact_config artman_config_path =
     (case (if service_yaml artifact_config \<noteq> []
            then (case normalize_path (service_yaml artifact_config) artman_config_path
                         ''service_yaml'' of
                    Inl e \<Rightarrow> Inl e
                  | Inr q \<Rightarrow> Inr (artifact_config\<lparr>service_yaml := q\<rparr>))
            else Inr artifact_config) of
        Inl e \<Rightarrow> Inl e
      | Inr c1 \<Rightarrow>
          (case (if gapic_yaml c1 \<noteq> []
                 then (case normalize_path (gapic_yaml c1) artman_config_path ''gapic_yaml'' of
                         Inl e \<Rightarrow> Inl e
                       | Inr q \<Rightarrow> Inr (c1\<lparr>gapic_yaml := q\<rparr>))
                 else Inr c1) of
             Inl e \<Rightarrow> Inl e
           | Inr c2 \<Rightarrow>
               (case normalize_src_proto_paths (src_proto_paths c2) artman_config_path [] of
                  Inl e \<Rightarrow> Inl e
                | Inr normalized \<Rightarrow> Inr (c2\<lparr>src_proto_paths := normalized\<rparr>))))"

definition validate_artifact_config :: "'a Artifact_scheme \<Rightarrow> error + unit" where
  "validate_artifact_config artifact_config =
     (if language artifact_config = NODEJS \<and> type artifact_config = GRPC
      then Inl (ValueError ''GRPC artifact type is invalid for NodeJS.'')
      else Inr ())"

fun validate_targets :: "string \<Rightarrow> string set \<Rightarrow> PublishTarget list \<Rightarrow> string option" where
  \<comment> \<open>the inner loop of \<^verbatim>\<open>_validate_artman_config\<close> over one artifact's publish
      targets; the set is \<^verbatim>\<open>targets\<close>\<close>
  "validate_targets artifact_name targets [] = None"
| "validate_targets artifact_name targets (target # rest) =
     (if PublishTarget.name target \<in> targets
      then Some (duplicate_target_message (PublishTarget.name target) artifact_name)
      else validate_targets artifact_name (insert (PublishTarget.name target) targets) rest)"

fun validate_artifacts :: "string set \<Rightarrow> Artifact list \<Rightarrow> string option" where
  \<comment> \<open>the outer loop of \<^verbatim>\<open>_validate_artman_config\<close>; the set is \<^verbatim>\<open>artifacts\<close>\<close>
  "validate_artifacts seen [] = None"
| "validate_artifacts seen (artifact # rest) =
     (if name artifact \<in> seen
      then Some (duplicate_artifact_message (name artifact))
      else (case validate_targets (name artifact) {} (publish_targets artifact) of
              Some m \<Rightarrow> Some m
            | None \<Rightarrow> validate_artifacts (insert (name artifact) seen) rest))"

definition validate_artman_config :: "Config \<Rightarrow> string option" where
  "validate_artman_config config_pb = validate_artifacts {} (artifacts config_pb)"

definition parse :: "'u env \<Rightarrow> string \<Rightarrow> (error + Config) \<times> log_entry list" where
  "parse e artman_yaml_path =
     (if \<not> path_exists e artman_yaml_path
      then (Inl (ValueError (CONFIG_NOT_FOUND_ERROR_MESSAGE_FORMAT artman_yaml_path)), [])
      else (case load_Config e artman_yaml_path of
              Parsed config_pb \<Rightarrow> (Inr config_pb, [])
            | ParseFailure \<Rightarrow>
                (Inl ParseError, [Error (INVALID_CONFIG_ERROR_MESSAGE_FORMAT artman_yaml_path)])
            | OtherFailure \<Rightarrow> (Inl OtherException, [])))"

definition read_artman_config :: "'u env \<Rightarrow> string \<Rightarrow> (error + Config) \<times> log_entry list" where
  \<comment> \<open>\<^verbatim>\<open>if validation_result:\<close> holds for a string that is not empty\<close>
  "read_artman_config e artman_yaml_path =
     (case parse e artman_yaml_path of
        (Inl err, log) \<Rightarrow> (Inl err, log)
      | (Inr artman_config, log) \<Rightarrow>
          (case validate_artman_config artman_config of
             None \<Rightarrow> (Inr artman_config, log)
           | Some validation_result \<Rightarrow>
               if validation_result \<noteq> []
               then (Inl (ValueError validation_result), log)
               else (Inr artman_config, log)))"

fun find_artifact ::
  "Artifact \<Rightarrow> string \<Rightarrow> string \<Rightarrow> string list \<Rightarrow> Artifact list \<Rightarrow> error + Artifact" where
  \<comment> \<open>the loop of \<^verbatim>\<open>load_artifact_config\<close> and the \<^verbatim>\<open>raise\<close> after it; the
      string list is \<^verbatim>\<open>valid_values\<close>\<close>
  "find_artifact artifact_config artman_config_path artifact_name valid_values [] =
     Inl (ValueError_no_artifact artifact_name valid_values)"
| "find_artifact artifact_config artman_config_path artifact_name valid_values (artifact # rest) =
     (let valid_values = valid_values @ [name artifact]
      in if name artifact = artifact_name
         then (let artifact_config = MergeFrom artifact_config artifact
               in case validate_artifact_config artifact_config of
                    Inl e \<Rightarrow> Inl e
                  | Inr _ \<Rightarrow> normalize_artifact_config artifact_config artman_config_path)
         else find_artifact artifact_config artman_config_path artifact_name valid_values rest)"

definition load_artifact_config ::
  "'u env \<Rightarrow> string \<Rightarrow> string \<Rightarrow> (error + Artifact) \<times> log_entry list" where
  "load_artifact_config e artman_config_path artifact_name =
     (case read_artman_config e artman_config_path of
        (Inl err, log) \<Rightarrow> (Inl err, log)
      | (Inr artman_config, log) \<Rightarrow>
          (find_artifact (CopyFrom new_Artifact (common artman_config)) artman_config_path
             artifact_name [] (artifacts artman_config), log))"

definition read_user_config :: "'u env \<Rightarrow> string \<Rightarrow> (error + 'u) \<times> log_entry list" where
  "read_user_config e artman_user_config_path =
     (let config_pb = new_UserConfig e;
          expanded = expanduser e artman_user_config_path
      in if \<not> isfile e expanded
         then (Inr config_pb, [Warn NO_USER_CONFIG_WARNING])
         else (case load_UserConfig e expanded of
                 Parsed pb \<Rightarrow> (Inr pb, [])
               | ParseFailure \<Rightarrow>
                   (Inl ParseError, [Error (INVALID_USER_CONFIG_ERROR_MESSAGE_FORMAT expanded)])
               | OtherFailure \<Rightarrow> (Inl OtherException, [])))"

subsection \<open>Notation for the statements\<close>

abbreviation (input) entry_rewritten :: "string \<Rightarrow> string \<Rightarrow> string \<Rightarrow> bool" where
  \<comment> \<open>how one entry \<open>x\<close> of \<^verbatim>\<open>src_proto_paths\<close> relates to its rewritten entry \<open>z\<close>\<close>
  "entry_rewritten artman_config_path x z \<equiv>
     (if startswith x ''-''
      then (\<exists>q. normalize_path (drop 1 x) artman_config_path ''src_proto_paths'' = Inr q
                 \<and> z = ''-'' @ q)
      else normalize_path x artman_config_path ''src_proto_paths'' = Inr z)"

subsection \<open>Environments for the examples\<close>

definition document_at :: "string \<Rightarrow> Config \<Rightarrow> unit env" where
  \<comment> \<open>a host on which the one file \<open>p\<close> exists and parses to the document \<open>c\<close>\<close>
  "document_at p c =
     \<lparr> path_exists = (\<lambda>q. q = p), isfile = (\<lambda>q. q = p),
       load_Config = (\<lambda>q. Parsed c), load_UserConfig = (\<lambda>q. ParseFailure),
       new_UserConfig = (), environ_HOME = None, pw_dir_of_uid = None,
       pw_dir_of_name = (\<lambda>n. None) \<rparr>"

definition user_host :: "string \<Rightarrow> string \<Rightarrow> string loaded \<Rightarrow> string env" where
  \<comment> \<open>a host with \<^verbatim>\<open>HOME\<close> set to \<open>h\<close>, on which the one file \<open>p\<close> exists and
      loading it as a user config has the outcome \<open>u\<close>; a user config is a string here\<close>
  "user_host h p u =
     \<lparr> path_exists = (\<lambda>q. q = p), isfile = (\<lambda>q. q = p),
       load_Config = (\<lambda>q. ParseFailure), load_UserConfig = (\<lambda>q. u),
       new_UserConfig = [], environ_HOME = Some h, pw_dir_of_uid = None,
       pw_dir_of_name = (\<lambda>n. None) \<rparr>"


section \<open>Auxiliary facts\<close>

subsection \<open>Strings\<close>

lemma contains_iff_sublist: "contains sub s \<longleftrightarrow> sublist sub s"
  by (induction s) (simp_all add: sublist_Cons_right)

lemma startswith_iff: "startswith s p \<longleftrightarrow> (\<exists>r. s = p @ r)"
  by (auto simp: startswith_def prefix_def)

lemma traversal_iff:
  "(startswith path ''..'' \<or> contains ''/..'' path) \<longleftrightarrow>
   ((\<exists>r. path = ''..'' @ r) \<or> (\<exists>ps ss. path = ps @ ''/..'' @ ss))"
  unfolding contains_iff_sublist startswith_iff sublist_def by simp

lemma no_sublist_by_contains: "\<not> contains sub s \<Longrightarrow> \<not> (\<exists>ps ss. s = ps @ sub @ ss)"
  unfolding contains_iff_sublist sublist_def by simp

lemma expanduser_home:
  assumes "environ_HOME e = Some h"
  shows "expanduser e (''~/'' @ rest) = rstrip_sep h @ ''/'' @ rest"
  using assms by (simp add: expanduser_def startswith_def find_sep_from1_def)

subsection \<open>Normalization\<close>

lemma normalize_path_Inl:
  "normalize_path x p f = Inl e \<Longrightarrow> e = ValueError (traversal_message f p (dirname p))"
  by (auto simp: normalize_path_def split: if_splits)

lemma traversal_message_field_neq:
  "traversal_message ''gapic_yaml'' p d \<noteq> traversal_message ''service_yaml'' p d"
  "traversal_message ''src_proto_paths'' p d \<noteq> traversal_message ''service_yaml'' p d"
  "traversal_message ''src_proto_paths'' p d \<noteq> traversal_message ''gapic_yaml'' p d"
  by (simp_all add: traversal_message_def)

lemma normalize_src_proto_paths_Inr:
  "normalize_src_proto_paths xs p acc = Inr ys \<Longrightarrow>
   \<exists>zs. ys = acc @ zs \<and> list_all2 (entry_rewritten p) xs zs"
proof (induction xs arbitrary: acc)
  case Nil
  then show ?case by simp
next
  case (Cons x xs)
  show ?case
  proof (cases "startswith x ''-''")
    case True
    with Cons.prems obtain q where
      q: "normalize_path (drop 1 x) p ''src_proto_paths'' = Inr q"
      and r: "normalize_src_proto_paths xs p (acc @ [''-'' @ q]) = Inr ys"
      by (auto split: sum.splits)
    from Cons.IH [OF r] obtain zs where
      "ys = (acc @ [''-'' @ q]) @ zs" "list_all2 (entry_rewritten p) xs zs" by blast
    with True q have "ys = acc @ ((''-'' @ q) # zs) \<and>
        list_all2 (entry_rewritten p) (x # xs) ((''-'' @ q) # zs)"
      by simp
    then show ?thesis by blast
  next
    case False
    with Cons.prems obtain q where
      q: "normalize_path x p ''src_proto_paths'' = Inr q"
      and r: "normalize_src_proto_paths xs p (acc @ [q]) = Inr ys"
      by (auto split: sum.splits)
    from Cons.IH [OF r] obtain zs where
      "ys = (acc @ [q]) @ zs" "list_all2 (entry_rewritten p) xs zs" by blast
    with False q have "ys = acc @ (q # zs) \<and>
        list_all2 (entry_rewritten p) (x # xs) (q # zs)"
      by simp
    then show ?thesis by blast
  qed
qed

lemma normalize_src_proto_paths_Inl:
  "normalize_src_proto_paths xs p acc = Inl e \<Longrightarrow>
   e = ValueError (traversal_message ''src_proto_paths'' p (dirname p))"
  by (induction xs arbitrary: acc)
     (auto simp: normalize_path_def split: if_splits sum.splits)

lemma normalize_artifact_config_cases:
  assumes "normalize_artifact_config a p = Inr r"
  shows "\<exists>sy gy ps.
           r = a\<lparr>service_yaml := sy, gapic_yaml := gy, src_proto_paths := ps\<rparr>
           \<and> (if service_yaml a \<noteq> []
               then normalize_path (service_yaml a) p ''service_yaml'' = Inr sy
               else sy = [])
           \<and> (if gapic_yaml a \<noteq> []
               then normalize_path (gapic_yaml a) p ''gapic_yaml'' = Inr gy
               else gy = [])
           \<and> normalize_src_proto_paths (src_proto_paths a) p [] = Inr ps"
  using assms unfolding normalize_artifact_config_def
  by (auto split: if_splits sum.splits)

lemma normalize_artifact_config_Inl:
  assumes "normalize_artifact_config a p = Inl e"
  shows "(service_yaml a \<noteq> [] \<and> normalize_path (service_yaml a) p ''service_yaml'' = Inl e)
         \<or> (gapic_yaml a \<noteq> [] \<and> normalize_path (gapic_yaml a) p ''gapic_yaml'' = Inl e)
         \<or> normalize_src_proto_paths (src_proto_paths a) p [] = Inl e"
  using assms unfolding normalize_artifact_config_def
  by (auto split: if_splits sum.splits)

lemma normalize_path_returns:
  "(\<exists>q. normalize_path x p f = Inr q) \<longleftrightarrow> \<not> (startswith x ''..'' \<or> contains ''/..'' x)"
  by (simp add: normalize_path_def)

lemma normalize_path_empty: "normalize_path [] p f = Inr (join (dirname p) [])"
  by (simp add: normalize_path_def startswith_def isabs_def)

lemma normalize_src_proto_paths_returns:
  "(\<exists>ys. normalize_src_proto_paths xs p acc = Inr ys) \<longleftrightarrow>
   (\<forall>x \<in> set xs. \<exists>q. normalize_path (if startswith x ''-'' then drop 1 x else x) p
                            ''src_proto_paths'' = Inr q)"
proof (induction xs arbitrary: acc)
  case Nil
  then show ?case by simp
next
  case (Cons x xs)
  show ?case
  proof (cases "normalize_path (if startswith x ''-'' then drop 1 x else x) p ''src_proto_paths''")
    case (Inl e)
    then show ?thesis by (auto split: if_splits)
  next
    case (Inr q)
    then show ?thesis using Cons.IH by (auto split: if_splits)
  qed
qed

lemma normalize_artifact_config_returns:
  "(\<exists>r. normalize_artifact_config a p = Inr r) \<longleftrightarrow>
   (\<exists>q. normalize_path (service_yaml a) p ''service_yaml'' = Inr q)
   \<and> (\<exists>q. normalize_path (gapic_yaml a) p ''gapic_yaml'' = Inr q)
   \<and> (\<forall>x \<in> set (src_proto_paths a).
         \<exists>q. normalize_path (if startswith x ''-'' then drop 1 x else x) p
                ''src_proto_paths'' = Inr q)"
proof
  assume "\<exists>r. normalize_artifact_config a p = Inr r"
  then obtain r where "normalize_artifact_config a p = Inr r" ..
  from normalize_artifact_config_cases [OF this] obtain sy gy ps where
    sy: "if service_yaml a \<noteq> []
         then normalize_path (service_yaml a) p ''service_yaml'' = Inr sy else sy = []"
    and gy: "if gapic_yaml a \<noteq> []
         then normalize_path (gapic_yaml a) p ''gapic_yaml'' = Inr gy else gy = []"
    and ps: "normalize_src_proto_paths (src_proto_paths a) p [] = Inr ps" by blast
  from sy have 1: "\<exists>q. normalize_path (service_yaml a) p ''service_yaml'' = Inr q"
    by (cases "service_yaml a = []") (simp_all add: normalize_path_empty)
  from gy have 2: "\<exists>q. normalize_path (gapic_yaml a) p ''gapic_yaml'' = Inr q"
    by (cases "gapic_yaml a = []") (simp_all add: normalize_path_empty)
  from ps have "\<exists>ys. normalize_src_proto_paths (src_proto_paths a) p [] = Inr ys" ..
  then have 3: "\<forall>x \<in> set (src_proto_paths a).
         \<exists>q. normalize_path (if startswith x ''-'' then drop 1 x else x) p
                ''src_proto_paths'' = Inr q"
    by (simp only: normalize_src_proto_paths_returns)
  from 1 2 3 show "(\<exists>q. normalize_path (service_yaml a) p ''service_yaml'' = Inr q)
   \<and> (\<exists>q. normalize_path (gapic_yaml a) p ''gapic_yaml'' = Inr q)
   \<and> (\<forall>x \<in> set (src_proto_paths a).
         \<exists>q. normalize_path (if startswith x ''-'' then drop 1 x else x) p
                ''src_proto_paths'' = Inr q)" by (intro conjI)
next
  assume r: "(\<exists>q. normalize_path (service_yaml a) p ''service_yaml'' = Inr q)
   \<and> (\<exists>q. normalize_path (gapic_yaml a) p ''gapic_yaml'' = Inr q)
   \<and> (\<forall>x \<in> set (src_proto_paths a).
         \<exists>q. normalize_path (if startswith x ''-'' then drop 1 x else x) p
                ''src_proto_paths'' = Inr q)"
  then obtain qs qg where
    qs: "normalize_path (service_yaml a) p ''service_yaml'' = Inr qs"
    and qg: "normalize_path (gapic_yaml a) p ''gapic_yaml'' = Inr qg" by blast
  from r have "\<forall>x \<in> set (src_proto_paths a).
         \<exists>q. normalize_path (if startswith x ''-'' then drop 1 x else x) p
                ''src_proto_paths'' = Inr q" by (elim conjE)
  then have "\<exists>ys. normalize_src_proto_paths (src_proto_paths a) p [] = Inr ys"
    by (simp only: normalize_src_proto_paths_returns)
  then obtain ys where "normalize_src_proto_paths (src_proto_paths a) p [] = Inr ys" ..
  with qs qg show "\<exists>r. normalize_artifact_config a p = Inr r"
    by (simp add: normalize_artifact_config_def)
qed

subsection \<open>Document validation\<close>

lemma validate_targets_None:
  "validate_targets an S ts = None \<longleftrightarrow>
   distinct (map PublishTarget.name ts) \<and> set (map PublishTarget.name ts) \<inter> S = {}"
  by (induction ts arbitrary: S) auto

lemma validate_targets_Some:
  "validate_targets an S ts = Some m \<Longrightarrow>
   \<exists>pre t post. ts = pre @ t # post \<and> validate_targets an S pre = None
     \<and> PublishTarget.name t \<in> S \<union> set (map PublishTarget.name pre)
     \<and> m = duplicate_target_message (PublishTarget.name t) an"
proof (induction ts arbitrary: S)
  case Nil
  then show ?case by simp
next
  case (Cons t ts)
  show ?case
  proof (cases "PublishTarget.name t \<in> S")
    case True
    with Cons.prems have "m = duplicate_target_message (PublishTarget.name t) an" by simp
    with True have "t # ts = [] @ t # ts \<and> validate_targets an S [] = None
        \<and> PublishTarget.name t \<in> S \<union> set (map PublishTarget.name [])
        \<and> m = duplicate_target_message (PublishTarget.name t) an" by simp
    then show ?thesis by blast
  next
    case False
    with Cons.prems
    have "validate_targets an (insert (PublishTarget.name t) S) ts = Some m" by simp
    from Cons.IH [OF this] obtain pre u post where
      ts: "ts = pre @ u # post"
      and pre: "validate_targets an (insert (PublishTarget.name t) S) pre = None"
      and u: "PublishTarget.name u \<in> insert (PublishTarget.name t) S \<union> set (map PublishTarget.name pre)"
      and m: "m = duplicate_target_message (PublishTarget.name u) an" by blast
    from False ts pre u m
    have "t # ts = (t # pre) @ u # post \<and> validate_targets an S (t # pre) = None
        \<and> PublishTarget.name u \<in> S \<union> set (map PublishTarget.name (t # pre))
        \<and> m = duplicate_target_message (PublishTarget.name u) an" by auto
    then show ?thesis by blast
  qed
qed

lemma validate_artifacts_None:
  "validate_artifacts S as = None \<longleftrightarrow>
   distinct (map name as) \<and> set (map name as) \<inter> S = {}
   \<and> (\<forall>a \<in> set as. distinct (map PublishTarget.name (publish_targets a)))"
proof (induction as arbitrary: S)
  case Nil
  then show ?case by simp
next
  case (Cons a as)
  have "validate_artifacts S (a # as) = None \<longleftrightarrow>
      name a \<notin> S \<and> validate_targets (name a) {} (publish_targets a) = None
      \<and> validate_artifacts (insert (name a) S) as = None"
    by (simp split: option.splits)
  also have "\<dots> \<longleftrightarrow> name a \<notin> S \<and> distinct (map PublishTarget.name (publish_targets a))
      \<and> distinct (map name as) \<and> set (map name as) \<inter> insert (name a) S = {}
      \<and> (\<forall>b \<in> set as. distinct (map PublishTarget.name (publish_targets b)))"
    unfolding Cons.IH validate_targets_None by simp
  also have "\<dots> \<longleftrightarrow> distinct (map name (a # as)) \<and> set (map name (a # as)) \<inter> S = {}
      \<and> (\<forall>b \<in> set (a # as). distinct (map PublishTarget.name (publish_targets b)))"
    by auto
  finally show ?case .
qed

lemma validate_artifacts_Some:
  "validate_artifacts S as = Some m \<Longrightarrow>
   \<exists>pre a post. as = pre @ a # post \<and> validate_artifacts S pre = None
     \<and> (name a \<in> S \<union> set (map name pre) \<and> m = duplicate_artifact_message (name a)
         \<or> name a \<notin> S \<union> set (map name pre)
           \<and> validate_targets (name a) {} (publish_targets a) = Some m)"
proof (induction as arbitrary: S)
  case Nil
  then show ?case by simp
next
  case (Cons a as)
  consider (dup) "name a \<in> S"
    | (tgt) "name a \<notin> S" "validate_targets (name a) {} (publish_targets a) = Some m"
    | (rest) "name a \<notin> S" "validate_targets (name a) {} (publish_targets a) = None"
        "validate_artifacts (insert (name a) S) as = Some m"
    using Cons.prems by (auto split: if_splits option.splits)
  then show ?case
  proof cases
    case dup
    with Cons.prems have "m = duplicate_artifact_message (name a)" by simp
    with dup have "a # as = [] @ a # as \<and> validate_artifacts S [] = None
        \<and> (name a \<in> S \<union> set (map name []) \<and> m = duplicate_artifact_message (name a)
         \<or> name a \<notin> S \<union> set (map name [])
           \<and> validate_targets (name a) {} (publish_targets a) = Some m)" by simp
    then show ?thesis by blast
  next
    case tgt
    then have "a # as = [] @ a # as \<and> validate_artifacts S [] = None
        \<and> (name a \<in> S \<union> set (map name []) \<and> m = duplicate_artifact_message (name a)
         \<or> name a \<notin> S \<union> set (map name [])
           \<and> validate_targets (name a) {} (publish_targets a) = Some m)" by simp
    then show ?thesis by blast
  next
    case rest
    from Cons.IH [OF rest(3)] obtain pre b post where
      as: "as = pre @ b # post"
      and pre: "validate_artifacts (insert (name a) S) pre = None"
      and b: "name b \<in> insert (name a) S \<union> set (map name pre)
           \<and> m = duplicate_artifact_message (name b)
         \<or> name b \<notin> insert (name a) S \<union> set (map name pre)
           \<and> validate_targets (name b) {} (publish_targets b) = Some m" by blast
    from rest(1,2) pre have "validate_artifacts S (a # pre) = None" by simp
    moreover have "a # as = (a # pre) @ b # post" using as by simp
    moreover from b have "name b \<in> S \<union> set (map name (a # pre))
           \<and> m = duplicate_artifact_message (name b)
         \<or> name b \<notin> S \<union> set (map name (a # pre))
           \<and> validate_targets (name b) {} (publish_targets b) = Some m" by simp
    ultimately show ?thesis by blast
  qed
qed

lemma validation_message_nonempty:
  "duplicate_artifact_message a \<noteq> []" "duplicate_target_message t a \<noteq> []"
  by (simp_all add: duplicate_artifact_message_def duplicate_target_message_def)

lemma validate_artifacts_Some_nonempty:
  assumes "validate_artifacts S as = Some m"
  shows "m \<noteq> []"
proof -
  from validate_artifacts_Some [OF assms] obtain a :: Artifact where
    "m = duplicate_artifact_message (name a)
     \<or> validate_targets (name a) {} (publish_targets a) = Some m"
    by blast
  then show ?thesis
  proof
    assume "m = duplicate_artifact_message (name a)"
    then show ?thesis by (simp add: validation_message_nonempty)
  next
    assume "validate_targets (name a) {} (publish_targets a) = Some m"
    from validate_targets_Some [OF this] show ?thesis
      by (auto simp: validation_message_nonempty)
  qed
qed

lemma read_artman_config_invalid:
  assumes "path_exists e p" "load_Config e p = Parsed c" "validate_artman_config c = Some m"
  shows "read_artman_config e p = (Inl (ValueError m), [])"
proof -
  from assms(3) have "m \<noteq> []"
    unfolding validate_artman_config_def by (rule validate_artifacts_Some_nonempty)
  with assms show ?thesis by (simp add: read_artman_config_def parse_def)
qed

lemma read_artman_config_valid:
  assumes "path_exists e p" "load_Config e p = Parsed c" "validate_artman_config c = None"
  shows "read_artman_config e p = (Inr c, [])"
  using assms by (simp add: read_artman_config_def parse_def)

subsection \<open>Resolution\<close>

lemma CopyFrom_new: "CopyFrom d s = s"
  by (simp add: CopyFrom_def MergeFrom_def new_Artifact_def)

lemma find_artifact_not_found:
  "n \<notin> set (map name as) \<Longrightarrow>
   find_artifact c p n vs as = Inl (ValueError_no_artifact n (vs @ map name as))"
  by (induction as arbitrary: vs) auto

lemma find_artifact_found:
  "find_artifact c p n vs as = Inr r \<Longrightarrow>
   \<exists>pre a post. as = pre @ a # post \<and> n \<notin> set (map name pre) \<and> name a = n
     \<and> validate_artifact_config (MergeFrom c a) = Inr ()
     \<and> normalize_artifact_config (MergeFrom c a) p = Inr r"
proof (induction as arbitrary: vs)
  case Nil
  then show ?case by simp
next
  case (Cons a as)
  show ?case
  proof (cases "name a = n")
    case True
    with Cons.prems have "validate_artifact_config (MergeFrom c a) = Inr ()
        \<and> normalize_artifact_config (MergeFrom c a) p = Inr r"
      by (auto simp: Let_def split: sum.splits)
    with True have "a # as = [] @ a # as \<and> n \<notin> set (map name []) \<and> name a = n
        \<and> validate_artifact_config (MergeFrom c a) = Inr ()
        \<and> normalize_artifact_config (MergeFrom c a) p = Inr r" by simp
    then show ?thesis by blast
  next
    case False
    with Cons.prems have "find_artifact c p n (vs @ [name a]) as = Inr r" by simp
    from Cons.IH [OF this] obtain pre b post where
      "as = pre @ b # post" "n \<notin> set (map name pre)" "name b = n"
      "validate_artifact_config (MergeFrom c b) = Inr ()"
      "normalize_artifact_config (MergeFrom c b) p = Inr r" by blast
    with False have "a # as = (a # pre) @ b # post \<and> n \<notin> set (map name (a # pre)) \<and> name b = n
        \<and> validate_artifact_config (MergeFrom c b) = Inr ()
        \<and> normalize_artifact_config (MergeFrom c b) p = Inr r" by auto
    then show ?thesis by blast
  qed
qed

lemma load_artifact_config_Inr:
  assumes "load_artifact_config e p n = (Inr r, log)"
  shows "\<exists>c. path_exists e p \<and> load_Config e p = Parsed c \<and> validate_artman_config c = None
           \<and> log = [] \<and> find_artifact (common c) p n [] (artifacts c) = Inr r"
proof -
  from assms have pe: "path_exists e p"
    by (auto simp: load_artifact_config_def read_artman_config_def parse_def
        split: if_splits)
  with assms obtain c where lc: "load_Config e p = Parsed c"
    by (cases "load_Config e p")
       (auto simp: load_artifact_config_def read_artman_config_def parse_def)
  have v: "validate_artman_config c = None"
  proof (cases "validate_artman_config c")
    case None
    then show ?thesis .
  next
    case (Some m)
    from read_artman_config_invalid [OF pe lc Some] assms show ?thesis
      by (simp add: load_artifact_config_def)
  qed
  from read_artman_config_valid [OF pe lc v] assms
  have "log = [] \<and> find_artifact (common c) p n [] (artifacts c) = Inr r"
    by (auto simp: load_artifact_config_def CopyFrom_new)
  with pe lc v show ?thesis by blast
qed

lemmas loader_defs =
  load_artifact_config_def read_artman_config_def parse_def document_at_def
  validate_artman_config_def CopyFrom_def MergeFrom_def new_Artifact_def
  validate_artifact_config_def normalize_artifact_config_def normalize_path_def
  startswith_def isabs_def join_def endswith_def suffix_to_prefix
  dirname_def rfind_sep_plus1_def rstrip_sep_def
  duplicate_artifact_message_def duplicate_target_message_def

section \<open>The claims\<close>

text \<open>
  C1, as the code has it. When \<^verbatim>\<open>load_artifact_config\<close> returns a config, the
  document is valid, the artifact \<open>a\<close> of the requested name is in it, and the result
  is the normalization of \<^verbatim>\<open>common\<close> merged with \<open>a\<close>. The name, the language and
  the type are those of \<open>a\<close> where \<open>a\<close> sets the field and those of \<^verbatim>\<open>common\<close>
  otherwise; a field is set when it differs from its default, so an artifact of type
  \<open>GAPIC\<close> keeps the type of \<^verbatim>\<open>common\<close>. \<^verbatim>\<open>service_yaml\<close> and \<^verbatim>\<open>gapic_yaml\<close> are the normalized path of
  \<open>a\<close> where \<open>a\<close> sets the field, else the normalized path of \<^verbatim>\<open>common\<close>, else
  empty. A repeated field is not replaced: \<^verbatim>\<open>publish_targets\<close> is the sequence of
  \<^verbatim>\<open>common\<close> followed by the sequence of \<open>a\<close>, and \<^verbatim>\<open>src_proto_paths\<close> is the
  entry by entry rewriting of the sequence of \<^verbatim>\<open>common\<close> followed by the sequence
  of \<open>a\<close>.
\<close>

theorem load_artifact_config_merge:
  assumes "load_artifact_config e p n = (Inr r, log)"
  shows "\<exists>c pre a post.
     load_Config e p = Parsed c \<and> distinct (map name (artifacts c))
     \<and> artifacts c = pre @ a # post \<and> name a = n
     \<and> normalize_artifact_config (MergeFrom (common c) a) p = Inr r
     \<and> name r = (if name a \<noteq> [] then name a else name (common c))
     \<and> language r = (if language a \<noteq> LANGUAGE_UNSPECIFIED then language a
                      else language (common c))
     \<and> type r = (if type a \<noteq> GAPIC then type a else type (common c))
     \<and> (if service_yaml a \<noteq> []
         then normalize_path (service_yaml a) p ''service_yaml'' = Inr (service_yaml r)
         else if service_yaml (common c) \<noteq> []
         then normalize_path (service_yaml (common c)) p ''service_yaml'' = Inr (service_yaml r)
         else service_yaml r = [])
     \<and> (if gapic_yaml a \<noteq> []
         then normalize_path (gapic_yaml a) p ''gapic_yaml'' = Inr (gapic_yaml r)
         else if gapic_yaml (common c) \<noteq> []
         then normalize_path (gapic_yaml (common c)) p ''gapic_yaml'' = Inr (gapic_yaml r)
         else gapic_yaml r = [])
     \<and> publish_targets r = publish_targets (common c) @ publish_targets a
     \<and> list_all2 (entry_rewritten p)
          (src_proto_paths (common c) @ src_proto_paths a) (src_proto_paths r)"
proof -
  from load_artifact_config_Inr [OF assms] obtain c where
    lc: "load_Config e p = Parsed c"
    and v: "validate_artman_config c = None"
    and f: "find_artifact (common c) p n [] (artifacts c) = Inr r" by blast
  from v have d: "distinct (map name (artifacts c))"
    by (simp add: validate_artman_config_def validate_artifacts_None)
  from find_artifact_found [OF f] obtain pre a post where
    ac: "artifacts c = pre @ a # post" and na: "name a = n"
    and nz: "normalize_artifact_config (MergeFrom (common c) a) p = Inr r" by blast
  let ?m = "MergeFrom (common c) a"
  from normalize_artifact_config_cases [OF nz] obtain sy gy ps where
    r: "r = ?m\<lparr>service_yaml := sy, gapic_yaml := gy, src_proto_paths := ps\<rparr>"
    and sy: "if service_yaml ?m \<noteq> []
             then normalize_path (service_yaml ?m) p ''service_yaml'' = Inr sy else sy = []"
    and gy: "if gapic_yaml ?m \<noteq> []
             then normalize_path (gapic_yaml ?m) p ''gapic_yaml'' = Inr gy else gy = []"
    and ps: "normalize_src_proto_paths (src_proto_paths ?m) p [] = Inr ps" by blast
  have f1: "name r = (if name a \<noteq> [] then name a else name (common c))"
    and f2: "language r = (if language a \<noteq> LANGUAGE_UNSPECIFIED then language a
                      else language (common c))"
    and f3: "type r = (if type a \<noteq> GAPIC then type a else type (common c))"
    and f4: "publish_targets r = publish_targets (common c) @ publish_targets a"
    unfolding r by (simp_all add: MergeFrom_def)
  have f5: "if service_yaml a \<noteq> []
         then normalize_path (service_yaml a) p ''service_yaml'' = Inr (service_yaml r)
         else if service_yaml (common c) \<noteq> []
         then normalize_path (service_yaml (common c)) p ''service_yaml'' = Inr (service_yaml r)
         else service_yaml r = []"
    using sy unfolding r by (simp add: MergeFrom_def split: if_splits)
  have f6: "if gapic_yaml a \<noteq> []
         then normalize_path (gapic_yaml a) p ''gapic_yaml'' = Inr (gapic_yaml r)
         else if gapic_yaml (common c) \<noteq> []
         then normalize_path (gapic_yaml (common c)) p ''gapic_yaml'' = Inr (gapic_yaml r)
         else gapic_yaml r = []"
    using gy unfolding r by (simp add: MergeFrom_def split: if_splits)
  from normalize_src_proto_paths_Inr [OF ps]
  have "list_all2 (entry_rewritten p) (src_proto_paths ?m) ps" by simp
  then have f7: "list_all2 (entry_rewritten p)
          (src_proto_paths (common c) @ src_proto_paths a) (src_proto_paths r)"
    unfolding r by (simp add: MergeFrom_def)
  show ?thesis
    apply (rule exI [of _ c], rule exI [of _ pre], rule exI [of _ a], rule exI [of _ post])
    apply (intro conjI)
    apply (rule lc d ac na nz f1 f2 f3 f4 f5 f6 f7)+
    done
qed

theorem load_artifact_config_merge_witness:
  "load_artifact_config
     (document_at ''/c/artman.yaml''
        \<lparr>common = new_Artifact\<lparr>language := PYTHON, service_yaml := ''svc.yaml'',
                     src_proto_paths := [''common'']\<rparr>,
         artifacts = [new_Artifact\<lparr>name := ''foo'', language := JAVA, type := GRPC,
                        src_proto_paths := [''-v1/x'']\<rparr>]\<rparr>)
     ''/c/artman.yaml'' ''foo''
   = (Inr (new_Artifact\<lparr>name := ''foo'', language := JAVA, type := GRPC,
             service_yaml := ''/c/svc.yaml'',
             src_proto_paths := [''/c/common'', ''-/c/v1/x'']\<rparr>), [])
   \<and> length (src_proto_paths
        (new_Artifact\<lparr>name := ''foo'', language := JAVA, type := GRPC,
             service_yaml := ''/c/svc.yaml'',
             src_proto_paths := [''/c/common'', ''-/c/v1/x'']\<rparr>)) = 2
   \<and> load_artifact_config
     (document_at ''/c/artman.yaml''
        \<lparr>common = new_Artifact\<lparr>language := PYTHON, type := GRPC\<rparr>,
         artifacts = [new_Artifact\<lparr>name := ''bar'', type := GAPIC\<rparr>]\<rparr>)
     ''/c/artman.yaml'' ''bar''
   = (Inr (new_Artifact\<lparr>name := ''bar'', language := PYTHON, type := GRPC\<rparr>), [])
   \<and> type (new_Artifact\<lparr>name := ''bar'', language := PYTHON, type := GRPC\<rparr>)
       = type (new_Artifact\<lparr>language := PYTHON, type := GRPC\<rparr>)"
proof -
  let ?P = "''/c/artman.yaml''"
  let ?C = "new_Artifact\<lparr>language := PYTHON, service_yaml := ''svc.yaml'',
                     src_proto_paths := [''common'']\<rparr>"
  let ?A = "new_Artifact\<lparr>name := ''foo'', language := JAVA, type := GRPC,
                        src_proto_paths := [''-v1/x'']\<rparr>"
  let ?D = "\<lparr>common = ?C, artifacts = [?A]\<rparr>"
  let ?R = "new_Artifact\<lparr>name := ''foo'', language := JAVA, type := GRPC,
             service_yaml := ''/c/svc.yaml'',
             src_proto_paths := [''/c/common'', ''-/c/v1/x'']\<rparr>"
  have h: "load_artifact_config (document_at ?P ?D) ?P ''foo'' = (Inr ?R, [])"
    by (simp add: loader_defs)
  from load_artifact_config_merge [OF h] obtain c pre a post where
    lc: "load_Config (document_at ?P ?D) ?P = Parsed c"
    and ac: "artifacts c = pre @ a # post"
    and la: "list_all2 (entry_rewritten ?P)
          (src_proto_paths (common c) @ src_proto_paths a) (src_proto_paths ?R)"
    by blast
  from lc have c: "c = ?D" by (simp add: document_at_def)
  from ac have a: "a = ?A" unfolding c by (cases pre) simp_all
  from la have "length (src_proto_paths (common c) @ src_proto_paths a)
      = length (src_proto_paths ?R)"
    by (rule list_all2_lengthD)
  then have l: "length (src_proto_paths ?R) = 2"
    unfolding c a by (simp add: new_Artifact_def)
  let ?C2 = "new_Artifact\<lparr>language := PYTHON, type := GRPC\<rparr>"
  let ?A2 = "new_Artifact\<lparr>name := ''bar'', type := GAPIC\<rparr>"
  let ?D2 = "\<lparr>common = ?C2, artifacts = [?A2]\<rparr>"
  let ?R2 = "new_Artifact\<lparr>name := ''bar'', language := PYTHON, type := GRPC\<rparr>"
  have h2: "load_artifact_config (document_at ?P ?D2) ?P ''bar'' = (Inr ?R2, [])"
    by (simp add: loader_defs)
  from load_artifact_config_merge [OF h2] obtain c2 pre2 a2 post2 where
    lc2: "load_Config (document_at ?P ?D2) ?P = Parsed c2"
    and ac2: "artifacts c2 = pre2 @ a2 # post2"
    and ty: "type ?R2 = (if type a2 \<noteq> GAPIC then type a2 else type (common c2))"
    by blast
  from lc2 have c2: "c2 = ?D2" by (simp add: document_at_def)
  from ac2 have a2: "a2 = ?A2" unfolding c2 by (cases pre2) simp_all
  from ty have t: "type ?R2 = type ?C2"
    unfolding c2 a2 by (simp add: new_Artifact_def)
  from h l h2 t show ?thesis by (intro conjI)
qed

text \<open>
  The reading of C1 in which a repeated field set on the override replaces the sequence
  of \<^verbatim>\<open>common\<close> fails: with language \<open>PYTHON\<close>, type \<open>GRPC\<close> and the path
  \<open>/c/common\<close> in \<^verbatim>\<open>common\<close> and the path \<open>/c/v1\<close> in the artifact \<open>foo\<close>, the resolved \<^verbatim>\<open>src_proto_paths\<close> holds both paths and differs
  from the sequence of the artifact.
\<close>

theorem load_artifact_config_repeated_counterexample:
  "load_artifact_config
     (document_at ''/c/artman.yaml''
        \<lparr>common = new_Artifact\<lparr>language := PYTHON, type := GRPC,
                     src_proto_paths := [''/c/common'']\<rparr>,
         artifacts = [new_Artifact\<lparr>name := ''foo'', src_proto_paths := [''/c/v1'']\<rparr>]\<rparr>)
     ''/c/artman.yaml'' ''foo''
   = (Inr (new_Artifact\<lparr>name := ''foo'', language := PYTHON, type := GRPC,
             src_proto_paths := [''/c/common'', ''/c/v1'']\<rparr>), [])
   \<and> src_proto_paths
        (new_Artifact\<lparr>name := ''foo'', language := PYTHON, type := GRPC,
           src_proto_paths := [''/c/common'', ''/c/v1'']\<rparr>)
      \<noteq> src_proto_paths (new_Artifact\<lparr>name := ''foo'', src_proto_paths := [''/c/v1'']\<rparr>)"
  by (simp add: load_artifact_config_def read_artman_config_def parse_def document_at_def
      validate_artman_config_def CopyFrom_def MergeFrom_def new_Artifact_def
      validate_artifact_config_def normalize_artifact_config_def normalize_path_def
      startswith_def isabs_def)

text \<open>
  C2. \<^verbatim>\<open>_normalize_path\<close> raises exactly when the path starts with \<open>..\<close> or
  contains \<open>/..\<close>. The error is then the \<^verbatim>\<open>ValueError\<close> whose message names the
  field, the config document path and its directory. Otherwise an absolute path is
  returned unchanged and a relative path is returned joined to the directory of the
  config document. The path \<open>a..b\<close> is accepted.
\<close>

theorem normalize_path_spec:
  "((\<exists>e. normalize_path path cfg field = Inl e) \<longleftrightarrow>
      ((\<exists>r. path = ''..'' @ r) \<or> (\<exists>ps ss. path = ps @ ''/..'' @ ss)))
   \<and> (\<forall>e. normalize_path path cfg field = Inl e \<longrightarrow>
          e = ValueError (traversal_message field cfg (dirname cfg))
          \<and> sublist field (traversal_message field cfg (dirname cfg))
          \<and> sublist cfg (traversal_message field cfg (dirname cfg))
          \<and> sublist (dirname cfg) (traversal_message field cfg (dirname cfg)))
   \<and> (\<forall>q. normalize_path path cfg field = Inr q \<longrightarrow>
          q = (if isabs path then path else join (dirname cfg) path))
   \<and> normalize_path ''a..b'' cfg field = Inr (join (dirname cfg) ''a..b'')"
proof -
  let ?T = "(\<exists>r. path = ''..'' @ r) \<or> (\<exists>ps ss. path = ps @ ''/..'' @ ss)"
  have t: "(startswith path ''..'' \<or> contains ''/..'' path) \<longleftrightarrow> ?T"
    by (rule traversal_iff)
  have a: "(\<exists>e. normalize_path path cfg field = Inl e) \<longleftrightarrow> ?T"
    unfolding t [symmetric] by (simp add: normalize_path_def)
  have s1: "sublist field (traversal_message field cfg b)" for b
    unfolding traversal_message_def sublist_def by (metis append.assoc)
  have s2: "sublist cfg (traversal_message field cfg b)" for b
    unfolding traversal_message_def sublist_def by (metis append.assoc)
  have s3: "sublist b (traversal_message field cfg b)" for b
    unfolding traversal_message_def sublist_def by (metis append.assoc)
  have b: "\<forall>e. normalize_path path cfg field = Inl e \<longrightarrow>
          e = ValueError (traversal_message field cfg (dirname cfg))
          \<and> sublist field (traversal_message field cfg (dirname cfg))
          \<and> sublist cfg (traversal_message field cfg (dirname cfg))
          \<and> sublist (dirname cfg) (traversal_message field cfg (dirname cfg))"
    using s1 s2 s3 by (auto simp: normalize_path_def split: if_splits)
  have c: "\<forall>q. normalize_path path cfg field = Inr q \<longrightarrow>
          q = (if isabs path then path else join (dirname cfg) path)"
    by (auto simp: normalize_path_def split: if_splits)
  have d: "normalize_path ''a..b'' cfg field = Inr (join (dirname cfg) ''a..b'')"
    by (simp add: normalize_path_def startswith_def isabs_def)
  from a b c d show ?thesis by blast
qed

theorem normalize_path_spec_witness:
  "(\<exists>ps ss. ''a/../b'' = ps @ ''/..'' @ ss)
   \<and> normalize_path ''a/../b'' ''/home/u/conf/artman.yaml'' ''gapic_yaml''
       = Inl (ValueError (traversal_message ''gapic_yaml'' ''/home/u/conf/artman.yaml''
                ''/home/u/conf''))
   \<and> normalize_path ''/etc/x.yaml'' ''/home/u/conf/artman.yaml'' ''gapic_yaml''
       = Inr ''/etc/x.yaml''
   \<and> normalize_path ''x.yaml'' ''/home/u/conf/artman.yaml'' ''gapic_yaml''
       = Inr ''/home/u/conf/x.yaml''"
proof -
  let ?c = "''/home/u/conf/artman.yaml''" and ?f = "''gapic_yaml''"
  have d: "dirname ?c = ''/home/u/conf''" by code_simp
  have h: "\<exists>ps ss. ''a/../b'' = ps @ ''/..'' @ ss"
    by (rule exI [of _ "''a''"], rule exI [of _ "''/b''"]) simp
  from normalize_path_spec [of "''a/../b''" ?c ?f] h
  have 1: "normalize_path ''a/../b'' ?c ?f
             = Inl (ValueError (traversal_message ?f ?c (dirname ?c)))"
    by blast
  have 2: "normalize_path ''/etc/x.yaml'' ?c ?f = Inr ''/etc/x.yaml''" by code_simp
  have 3: "normalize_path ''x.yaml'' ?c ?f = Inr ''/home/u/conf/x.yaml''" by code_simp
  from h 1 2 3 d show ?thesis by simp
qed

text \<open>
  C3. When \<^verbatim>\<open>_normalize_artifact_config\<close> returns, \<^verbatim>\<open>src_proto_paths\<close> has the
  same length as before and each entry is the rewriting of the entry at the same
  position: an entry starting with \<open>-\<close> has its remainder normalized by
  \<^verbatim>\<open>_normalize_path\<close> and the marker put back, any other entry is normalized whole.
  The end-to-end scenario: with \<open>common = {language: PYTHON}\<close> and one artifact
  \<open>{name: foo, type: GRPC, src_proto_paths: [protos/x.proto, -protos/y.proto]}\<close> in
  the document at \<open>/home/u/conf/artman.yaml\<close>, resolving \<open>foo\<close> returns language
  \<open>PYTHON\<close>, type \<open>GRPC\<close> and the two paths under \<open>/home/u/conf\<close>.
  The normalization returns exactly when \<^verbatim>\<open>_normalize_path\<close> accepts
  \<^verbatim>\<open>service_yaml\<close>, \<^verbatim>\<open>gapic_yaml\<close> and every entry, without its marker.
\<close>

theorem normalize_src_proto_paths_spec:
  "(\<forall>r. normalize_artifact_config a p = Inr r \<longrightarrow>
        length (src_proto_paths r) = length (src_proto_paths a)
        \<and> (\<forall>i < length (src_proto_paths a).
              if startswith (src_proto_paths a ! i) ''-''
              then \<exists>q. normalize_path (drop 1 (src_proto_paths a ! i)) p ''src_proto_paths'' = Inr q
                       \<and> src_proto_paths r ! i = ''-'' @ q
              else normalize_path (src_proto_paths a ! i) p ''src_proto_paths''
                     = Inr (src_proto_paths r ! i)))
   \<and> (\<forall>e :: 'u env. path_exists e ''/home/u/conf/artman.yaml''
          \<and> load_Config e ''/home/u/conf/artman.yaml'' = Parsed
              \<lparr>common = new_Artifact\<lparr>language := PYTHON\<rparr>,
               artifacts = [new_Artifact\<lparr>name := ''foo'', type := GRPC,
                  src_proto_paths := [''protos/x.proto'', ''-protos/y.proto'']\<rparr>]\<rparr>
        \<longrightarrow> load_artifact_config e ''/home/u/conf/artman.yaml'' ''foo'' =
              (Inr (new_Artifact\<lparr>name := ''foo'', language := PYTHON, type := GRPC,
                  src_proto_paths :=
                    [''/home/u/conf/protos/x.proto'', ''-/home/u/conf/protos/y.proto'']\<rparr>), []))
   \<and> ((\<exists>r. normalize_artifact_config a p = Inr r) \<longleftrightarrow>
        (\<exists>q. normalize_path (service_yaml a) p ''service_yaml'' = Inr q)
        \<and> (\<exists>q. normalize_path (gapic_yaml a) p ''gapic_yaml'' = Inr q)
        \<and> (\<forall>x \<in> set (src_proto_paths a).
              \<exists>q. normalize_path (if startswith x ''-'' then drop 1 x else x) p
                     ''src_proto_paths'' = Inr q))"
proof -
  have g: "length (src_proto_paths r) = length (src_proto_paths a)
        \<and> (\<forall>i < length (src_proto_paths a).
              if startswith (src_proto_paths a ! i) ''-''
              then \<exists>q. normalize_path (drop 1 (src_proto_paths a ! i)) p ''src_proto_paths'' = Inr q
                       \<and> src_proto_paths r ! i = ''-'' @ q
              else normalize_path (src_proto_paths a ! i) p ''src_proto_paths''
                     = Inr (src_proto_paths r ! i))"
    if h: "normalize_artifact_config a p = Inr r" for r
  proof -
    from normalize_artifact_config_cases [OF h] obtain sy gy ps where
      r: "r = a\<lparr>service_yaml := sy, gapic_yaml := gy, src_proto_paths := ps\<rparr>"
      and ps: "normalize_src_proto_paths (src_proto_paths a) p [] = Inr ps" by blast
    from normalize_src_proto_paths_Inr [OF ps]
    have la: "list_all2 (entry_rewritten p) (src_proto_paths a) ps" by simp
    have len: "length (src_proto_paths a) = length ps"
      using la by (rule list_all2_lengthD)
    have nth: "entry_rewritten p (src_proto_paths a ! i) (ps ! i)"
      if "i < length (src_proto_paths a)" for i
      using la that by (rule list_all2_nthD)
    have sr: "src_proto_paths r = ps" using r by simp
    show ?thesis
      unfolding sr
    proof (intro conjI allI impI)
      show "length ps = length (src_proto_paths a)" using len by simp
    next
      fix i
      assume "i < length (src_proto_paths a)"
      then show "entry_rewritten p (src_proto_paths a ! i) (ps ! i)" by (rule nth)
    qed
  qed
  have x: "load_artifact_config e ''/home/u/conf/artman.yaml'' ''foo'' =
              (Inr (new_Artifact\<lparr>name := ''foo'', language := PYTHON, type := GRPC,
                  src_proto_paths :=
                    [''/home/u/conf/protos/x.proto'', ''-/home/u/conf/protos/y.proto'']\<rparr>), [])"
    if "path_exists e ''/home/u/conf/artman.yaml''"
      and "load_Config e ''/home/u/conf/artman.yaml'' = Parsed
              \<lparr>common = new_Artifact\<lparr>language := PYTHON\<rparr>,
               artifacts = [new_Artifact\<lparr>name := ''foo'', type := GRPC,
                  src_proto_paths := [''protos/x.proto'', ''-protos/y.proto'']\<rparr>]\<rparr>"
    for e :: "'u env"
  proof -
    have d: "dirname ''/home/u/conf/artman.yaml'' = ''/home/u/conf''"
      by (simp add: dirname_def rfind_sep_plus1_def rstrip_sep_def)
    from that show ?thesis
      by (simp add: load_artifact_config_def read_artman_config_def parse_def
          validate_artman_config_def CopyFrom_def MergeFrom_def new_Artifact_def
          validate_artifact_config_def normalize_artifact_config_def normalize_path_def
          startswith_def isabs_def join_def endswith_def suffix_to_prefix d)
  qed
  note y = normalize_artifact_config_returns [of a p]
  from g x y show ?thesis by blast
qed

theorem normalize_src_proto_paths_spec_witness:
  "normalize_artifact_config
     (new_Artifact\<lparr>name := ''foo'', language := PYTHON, type := GRPC,
        src_proto_paths := [''protos/x.proto'', ''-protos/y.proto'']\<rparr>)
     ''/home/u/conf/artman.yaml''
   = Inr (new_Artifact\<lparr>name := ''foo'', language := PYTHON, type := GRPC,
        src_proto_paths := [''/home/u/conf/protos/x.proto'', ''-/home/u/conf/protos/y.proto'']\<rparr>)
   \<and> normalize_path ''protos/y.proto'' ''/home/u/conf/artman.yaml'' ''src_proto_paths''
       = Inr ''/home/u/conf/protos/y.proto''
   \<and> load_artifact_config
        (document_at ''/home/u/conf/artman.yaml''
           \<lparr>common = new_Artifact\<lparr>language := PYTHON\<rparr>,
            artifacts = [new_Artifact\<lparr>name := ''foo'', type := GRPC,
               src_proto_paths := [''protos/x.proto'', ''-protos/y.proto'']\<rparr>]\<rparr>)
        ''/home/u/conf/artman.yaml'' ''foo''
      = (Inr (new_Artifact\<lparr>name := ''foo'', language := PYTHON, type := GRPC,
           src_proto_paths :=
             [''/home/u/conf/protos/x.proto'', ''-/home/u/conf/protos/y.proto'']\<rparr>), [])"
proof -
  let ?P = "''/home/u/conf/artman.yaml''"
  let ?a = "new_Artifact\<lparr>name := ''foo'', language := PYTHON, type := GRPC,
        src_proto_paths := [''protos/x.proto'', ''-protos/y.proto'']\<rparr>"
  let ?r = "new_Artifact\<lparr>name := ''foo'', language := PYTHON, type := GRPC,
        src_proto_paths := [''/home/u/conf/protos/x.proto'', ''-/home/u/conf/protos/y.proto'']\<rparr>"
  let ?D = "\<lparr>common = new_Artifact\<lparr>language := PYTHON\<rparr>,
            artifacts = [new_Artifact\<lparr>name := ''foo'', type := GRPC,
               src_proto_paths := [''protos/x.proto'', ''-protos/y.proto'']\<rparr>]\<rparr>"
  note t = normalize_src_proto_paths_spec [where 'u = unit, of ?a ?P]
  have h: "normalize_artifact_config ?a ?P = Inr ?r" by code_simp
  have i: "(1::nat) < length (src_proto_paths ?a)" by (simp add: new_Artifact_def)
  have s: "startswith (src_proto_paths ?a ! 1) ''-''"
    by (simp add: new_Artifact_def startswith_def)
  from t h i s obtain q where
    "normalize_path (drop 1 (src_proto_paths ?a ! 1)) ?P ''src_proto_paths'' = Inr q"
    "src_proto_paths ?r ! 1 = ''-'' @ q"
    by meson
  then have 1: "normalize_path ''protos/y.proto'' ?P ''src_proto_paths''
      = Inr ''/home/u/conf/protos/y.proto''"
    by (simp add: new_Artifact_def)
  have e: "path_exists (document_at ?P ?D) ?P \<and> load_Config (document_at ?P ?D) ?P = Parsed ?D"
    by (simp add: document_at_def)
  from t have "\<forall>e :: unit env. path_exists e ?P \<and> load_Config e ?P = Parsed ?D
        \<longrightarrow> load_artifact_config e ?P ''foo'' = (Inr ?r, [])"
    by (elim conjE)
  from this [rule_format, OF e]
  have 2: "load_artifact_config (document_at ?P ?D) ?P ''foo'' = (Inr ?r, [])" .
  from h 1 2 show ?thesis by (intro conjI)
qed

text \<open>
  C4. \<^verbatim>\<open>_validate_artman_config\<close> returns \<open>None\<close> exactly when the artifact
  names are pairwise different and, in each artifact, the publish target names are
  pairwise different. A returned message belongs to the first violation in document
  order: every artifact before the offending one is free of violations, and the
  message is the duplicate-artifact message when the name of the offending artifact
  occurs before it, else the duplicate-target message of the first target of that
  artifact whose name occurs before it among the targets. Whenever a message is
  returned for a document that parses, \<^verbatim>\<open>load_artifact_config\<close> raises the
  \<^verbatim>\<open>ValueError\<close> of that message, whatever artifact is requested.
\<close>

theorem validate_artman_config_spec:
  "(validate_artman_config c = None \<longleftrightarrow>
      distinct (map name (artifacts c))
      \<and> (\<forall>a \<in> set (artifacts c). distinct (map PublishTarget.name (publish_targets a))))
   \<and> (\<forall>m. validate_artman_config c = Some m \<longrightarrow>
         (\<exists>pre a post. artifacts c = pre @ a # post
            \<and> distinct (map name pre)
            \<and> (\<forall>b \<in> set pre. distinct (map PublishTarget.name (publish_targets b)))
            \<and> (name a \<in> set (map name pre) \<and> m = duplicate_artifact_message (name a)
               \<or> name a \<notin> set (map name pre)
                 \<and> (\<exists>tpre t tpost. publish_targets a = tpre @ t # tpost
                       \<and> distinct (map PublishTarget.name tpre)
                       \<and> PublishTarget.name t \<in> set (map PublishTarget.name tpre)
                       \<and> m = duplicate_target_message (PublishTarget.name t) (name a)))))
   \<and> (\<forall>m (e :: 'u env) p n.
         path_exists e p \<and> load_Config e p = Parsed c \<and> validate_artman_config c = Some m
         \<longrightarrow> load_artifact_config e p n = (Inl (ValueError m), []))"
proof -
  have 1: "validate_artman_config c = None \<longleftrightarrow>
      distinct (map name (artifacts c))
      \<and> (\<forall>a \<in> set (artifacts c). distinct (map PublishTarget.name (publish_targets a)))"
    by (simp add: validate_artman_config_def validate_artifacts_None)
  have 2: "\<exists>pre a post. artifacts c = pre @ a # post
            \<and> distinct (map name pre)
            \<and> (\<forall>b \<in> set pre. distinct (map PublishTarget.name (publish_targets b)))
            \<and> (name a \<in> set (map name pre) \<and> m = duplicate_artifact_message (name a)
               \<or> name a \<notin> set (map name pre)
                 \<and> (\<exists>tpre t tpost. publish_targets a = tpre @ t # tpost
                       \<and> distinct (map PublishTarget.name tpre)
                       \<and> PublishTarget.name t \<in> set (map PublishTarget.name tpre)
                       \<and> m = duplicate_target_message (PublishTarget.name t) (name a)))"
    if "validate_artman_config c = Some m" for m
  proof -
    from that have "validate_artifacts {} (artifacts c) = Some m"
      by (simp add: validate_artman_config_def)
    from validate_artifacts_Some [OF this] obtain pre a post where
      c: "artifacts c = pre @ a # post"
      and pre: "validate_artifacts {} pre = None"
      and a: "name a \<in> set (map name pre) \<and> m = duplicate_artifact_message (name a)
         \<or> name a \<notin> set (map name pre)
           \<and> validate_targets (name a) {} (publish_targets a) = Some m"
      by auto
    from pre have p1: "distinct (map name pre)"
      and p2: "\<forall>b \<in> set pre. distinct (map PublishTarget.name (publish_targets b))"
      by (simp_all add: validate_artifacts_None)
    from a show ?thesis
    proof
      assume "name a \<in> set (map name pre) \<and> m = duplicate_artifact_message (name a)"
      with c p1 p2 show ?thesis by blast
    next
      assume t: "name a \<notin> set (map name pre)
           \<and> validate_targets (name a) {} (publish_targets a) = Some m"
      then have "validate_targets (name a) {} (publish_targets a) = Some m" ..
      from validate_targets_Some [OF this] obtain tpre u tpost where
        "publish_targets a = tpre @ u # tpost"
        "validate_targets (name a) {} tpre = None"
        "PublishTarget.name u \<in> set (map PublishTarget.name tpre)"
        "m = duplicate_target_message (PublishTarget.name u) (name a)"
        by auto
      then have "publish_targets a = tpre @ u # tpost
          \<and> distinct (map PublishTarget.name tpre)
          \<and> PublishTarget.name u \<in> set (map PublishTarget.name tpre)
          \<and> m = duplicate_target_message (PublishTarget.name u) (name a)"
        by (simp add: validate_targets_None)
      with t c p1 p2 show ?thesis by blast
    qed
  qed
  have 3: "load_artifact_config e p n = (Inl (ValueError m), [])"
    if "path_exists e p \<and> load_Config e p = Parsed c \<and> validate_artman_config c = Some m"
    for m and e :: "'u env" and p n
  proof -
    from that have "read_artman_config e p = (Inl (ValueError m), [])"
      by (simp add: read_artman_config_invalid)
    then show ?thesis by (simp add: load_artifact_config_def)
  qed
  from 1 2 3 show ?thesis by blast
qed

theorem validate_artman_config_spec_witness:
  "validate_artman_config
     \<lparr>common = new_Artifact,
      artifacts =
        [new_Artifact\<lparr>name := ''x'', publish_targets :=
           [\<lparr>PublishTarget.name = ''staging'', repo_url = ''u1'', username = [], password = [],
             publish_env = []\<rparr>,
            \<lparr>PublishTarget.name = ''staging'', repo_url = ''u2'', username = [], password = [],
             publish_env = []\<rparr>]\<rparr>,
         new_Artifact\<lparr>name := ''x''\<rparr>]\<rparr>
     = Some (duplicate_target_message ''staging'' ''x'')
   \<and> validate_artman_config
       \<lparr>common = new_Artifact,
        artifacts = [new_Artifact\<lparr>name := ''x'', language := NODEJS, type := GRPC\<rparr>,
                     new_Artifact\<lparr>name := ''x''\<rparr>]\<rparr>
     = Some (duplicate_artifact_message ''x'')
   \<and> load_artifact_config
       (document_at ''/c/artman.yaml''
          \<lparr>common = new_Artifact,
           artifacts = [new_Artifact\<lparr>name := ''x'', language := NODEJS, type := GRPC\<rparr>,
                        new_Artifact\<lparr>name := ''x''\<rparr>]\<rparr>)
       ''/c/artman.yaml'' ''x''
     = (Inl (ValueError (duplicate_artifact_message ''x'')), [])
   \<and> validate_artman_config
       \<lparr>common = new_Artifact,
        artifacts = [new_Artifact\<lparr>name := ''x''\<rparr>, new_Artifact\<lparr>name := ''y''\<rparr>]\<rparr> = None"
proof -
  let ?P = "''/c/artman.yaml''"
  let ?D1 = "\<lparr>common = new_Artifact,
      artifacts =
        [new_Artifact\<lparr>name := ''x'', publish_targets :=
           [\<lparr>PublishTarget.name = ''staging'', repo_url = ''u1'', username = [], password = [],
             publish_env = []\<rparr>,
            \<lparr>PublishTarget.name = ''staging'', repo_url = ''u2'', username = [], password = [],
             publish_env = []\<rparr>]\<rparr>,
         new_Artifact\<lparr>name := ''x''\<rparr>]\<rparr>"
  let ?D2 = "\<lparr>common = new_Artifact,
        artifacts = [new_Artifact\<lparr>name := ''x'', language := NODEJS, type := GRPC\<rparr>,
                     new_Artifact\<lparr>name := ''x''\<rparr>]\<rparr>"
  let ?D3 = "\<lparr>common = new_Artifact,
        artifacts = [new_Artifact\<lparr>name := ''x''\<rparr>, new_Artifact\<lparr>name := ''y''\<rparr>]\<rparr>"
  have 1: "validate_artman_config ?D1 = Some (duplicate_target_message ''staging'' ''x'')"
    by (simp add: validate_artman_config_def new_Artifact_def)
  have 2: "validate_artman_config ?D2 = Some (duplicate_artifact_message ''x'')"
    by (simp add: validate_artman_config_def new_Artifact_def)
  have e: "path_exists (document_at ?P ?D2) ?P
      \<and> load_Config (document_at ?P ?D2) ?P = Parsed ?D2
      \<and> validate_artman_config ?D2 = Some (duplicate_artifact_message ''x'')"
    using 2 by (simp add: document_at_def)
  note t = validate_artman_config_spec [where 'u = unit, of ?D2]
  from t have "\<forall>m (e :: unit env) p n.
         path_exists e p \<and> load_Config e p = Parsed ?D2 \<and> validate_artman_config ?D2 = Some m
         \<longrightarrow> load_artifact_config e p n = (Inl (ValueError m), [])"
    by (elim conjE)
  from this [rule_format, OF e]
  have 3: "load_artifact_config (document_at ?P ?D2) ?P ''x''
      = (Inl (ValueError (duplicate_artifact_message ''x'')), [])" .
  have "distinct (map name (artifacts ?D3))
      \<and> (\<forall>a \<in> set (artifacts ?D3). distinct (map PublishTarget.name (publish_targets a)))"
    by (simp add: new_Artifact_def)
  with validate_artman_config_spec [where 'u = unit, of ?D3]
  have 4: "validate_artman_config ?D3 = None" by blast
  from 1 2 3 4 show ?thesis by (intro conjI)
qed

text \<open>
  C5. For a valid document in which no artifact has the requested name,
  \<^verbatim>\<open>load_artifact_config\<close> raises the \<^verbatim>\<open>ValueError\<close> formatted from the
  requested name and the list of all artifact names of the document, in document order.
\<close>

theorem load_artifact_config_not_found:
  assumes "path_exists e p"
    and "load_Config e p = Parsed c"
    and "validate_artman_config c = None"
    and "n \<notin> set (map name (artifacts c))"
  shows "load_artifact_config e p n
           = (Inl (ValueError_no_artifact n (map name (artifacts c))), [])"
proof -
  from assms(1-3) have "read_artman_config e p = (Inr c, [])"
    by (rule read_artman_config_valid)
  moreover from assms(4)
  have "find_artifact (common c) p n [] (artifacts c)
          = Inl (ValueError_no_artifact n ([] @ map name (artifacts c)))"
    by (rule find_artifact_not_found)
  ultimately show ?thesis by (simp add: load_artifact_config_def CopyFrom_new)
qed

theorem load_artifact_config_not_found_witness:
  "load_artifact_config
     (document_at ''/c/artman.yaml''
        \<lparr>common = new_Artifact,
         artifacts = [new_Artifact\<lparr>name := ''a''\<rparr>, new_Artifact\<lparr>name := ''b''\<rparr>,
                      new_Artifact\<lparr>name := ''c''\<rparr>]\<rparr>)
     ''/c/artman.yaml'' ''x''
   = (Inl (ValueError_no_artifact ''x'' [''a'', ''b'', ''c'']), [])"
proof -
  let ?P = "''/c/artman.yaml''"
  let ?D = "\<lparr>common = new_Artifact,
         artifacts = [new_Artifact\<lparr>name := ''a''\<rparr>, new_Artifact\<lparr>name := ''b''\<rparr>,
                      new_Artifact\<lparr>name := ''c''\<rparr>]\<rparr>"
  have 1: "path_exists (document_at ?P ?D) ?P" by (simp add: document_at_def)
  have 2: "load_Config (document_at ?P ?D) ?P = Parsed ?D" by (simp add: document_at_def)
  have 3: "validate_artman_config ?D = None"
    by (simp add: validate_artman_config_def new_Artifact_def)
  have 4: "''x'' \<notin> set (map name (artifacts ?D))" by (simp add: new_Artifact_def)
  from load_artifact_config_not_found [OF 1 2 3 4] show ?thesis
    by (simp add: new_Artifact_def)
qed

text \<open>
  C6. \<^verbatim>\<open>_validate_artifact_config\<close> raises exactly when the language is
  \<open>NODEJS\<close> and the type is \<open>GRPC\<close>; the other fields play no part.
\<close>

theorem validate_artifact_config_spec:
  "((\<exists>e. validate_artifact_config a = Inl e) \<longleftrightarrow> (language a = NODEJS \<and> type a = GRPC))
   \<and> (validate_artifact_config a = Inr () \<longleftrightarrow> \<not> (language a = NODEJS \<and> type a = GRPC))
   \<and> (\<forall>e. validate_artifact_config a = Inl e \<longrightarrow>
          e = ValueError ''GRPC artifact type is invalid for NodeJS.'')
   \<and> validate_artifact_config
        (a\<lparr>name := n, service_yaml := s, gapic_yaml := g, src_proto_paths := ps,
           publish_targets := ts\<rparr>) = validate_artifact_config a"
  by (simp add: validate_artifact_config_def)

theorem validate_artifact_config_spec_witness:
  "validate_artifact_config
     \<lparr>name = ''n'', language = NODEJS, type = GRPC, service_yaml = ''s.yaml'',
      gapic_yaml = [], src_proto_paths = [''p''], publish_targets = []\<rparr>
     = Inl (ValueError ''GRPC artifact type is invalid for NodeJS.'')
   \<and> validate_artifact_config
     \<lparr>name = ''n'', language = NODEJS, type = GAPIC, service_yaml = ''s.yaml'',
      gapic_yaml = [], src_proto_paths = [''p''], publish_targets = []\<rparr> = Inr ()
   \<and> validate_artifact_config
     \<lparr>name = ''n'', language = PYTHON, type = GRPC, service_yaml = ''s.yaml'',
      gapic_yaml = [], src_proto_paths = [''p''], publish_targets = []\<rparr> = Inr ()"
proof -
  let ?a = "\<lparr>name = ''n'', language = NODEJS, type = GRPC, service_yaml = ''s.yaml'',
      gapic_yaml = [], src_proto_paths = [''p''], publish_targets = []\<rparr>"
  let ?b = "\<lparr>name = ''n'', language = NODEJS, type = GAPIC, service_yaml = ''s.yaml'',
      gapic_yaml = [], src_proto_paths = [''p''], publish_targets = []\<rparr>"
  let ?c = "\<lparr>name = ''n'', language = PYTHON, type = GRPC, service_yaml = ''s.yaml'',
      gapic_yaml = [], src_proto_paths = [''p''], publish_targets = []\<rparr>"
  have "language ?a = NODEJS \<and> type ?a = GRPC" by simp
  with validate_artifact_config_spec [of ?a]
  have 1: "validate_artifact_config ?a = Inl (ValueError ''GRPC artifact type is invalid for NodeJS.'')"
    by blast
  have "\<not> (language ?b = NODEJS \<and> type ?b = GRPC)" by simp
  with validate_artifact_config_spec [of ?b] have 2: "validate_artifact_config ?b = Inr ()"
    by blast
  have "\<not> (language ?c = NODEJS \<and> type ?c = GRPC)" by simp
  with validate_artifact_config_spec [of ?c] have 3: "validate_artifact_config ?c = Inr ()"
    by blast
  from 1 2 3 show ?thesis by blast
qed

text \<open>
  C7. An absolute path that does not start with \<open>..\<close> and does not contain \<open>/..\<close>
  is returned unchanged by \<^verbatim>\<open>_normalize_path\<close>, whatever the config document path
  and the field name; normalizing the output again returns it again.
\<close>

theorem normalize_path_idempotent:
  assumes "isabs path"
    and "\<not> (\<exists>r. path = ''..'' @ r)"
    and "\<not> (\<exists>ps ss. path = ps @ ''/..'' @ ss)"
  shows "normalize_path path cfg field = Inr path
         \<and> (\<forall>q. normalize_path path cfg field = Inr q \<longrightarrow>
                normalize_path q cfg' field' = Inr q)"
proof -
  from assms(2,3) have nt: "\<not> (startswith path ''..'' \<or> contains ''/..'' path)"
    unfolding traversal_iff by blast
  with assms(1) have "normalize_path path c f = Inr path" for c f
    by (simp add: normalize_path_def)
  then show ?thesis by simp
qed

theorem normalize_path_idempotent_witness:
  "isabs ''/home/u/conf/protos/x.proto''
   \<and> \<not> (\<exists>r. ''/home/u/conf/protos/x.proto'' = ''..'' @ r)
   \<and> \<not> (\<exists>ps ss. ''/home/u/conf/protos/x.proto'' = ps @ ''/..'' @ ss)
   \<and> normalize_path ''/home/u/conf/protos/x.proto'' ''/srv/artman.yaml'' ''gapic_yaml''
       = Inr ''/home/u/conf/protos/x.proto''"
proof -
  have a: "isabs ''/home/u/conf/protos/x.proto''"
    by (simp add: isabs_def startswith_def)
  have b: "\<not> (\<exists>r. ''/home/u/conf/protos/x.proto'' = ''..'' @ r)" by simp
  have c: "\<not> (\<exists>ps ss. ''/home/u/conf/protos/x.proto'' = ps @ ''/..'' @ ss)"
    by (rule no_sublist_by_contains) simp
  from normalize_path_idempotent [OF a b c, of "''/srv/artman.yaml''" "''gapic_yaml''"] a b c
  show ?thesis by blast
qed

text \<open>
  C8, as the code has it. \<^verbatim>\<open>read_user_config\<close> tests the expanded path. When it
  is not a file, the result is the fresh \<^verbatim>\<open>UserConfig\<close> and one warning is logged.
  When it is a file and parsing it raises \<^verbatim>\<open>json_format.ParseError\<close> or
  \<^verbatim>\<open>yaml.parser.ParserError\<close>, one error naming the expanded path is logged and the
  exception is raised. When opening or parsing it raises any other exception, that
  exception is raised and nothing is logged. An error is logged in the first of these
  two cases only, and a config is returned for a file only when the file parses. The
  expansion replaces a leading \<open>~/\<close> by the home directory and leaves a path without
  a leading \<open>~\<close> as it is.
\<close>

theorem read_user_config_spec:
  "(\<not> isfile e (expanduser e path) \<longrightarrow>
      read_user_config e path = (Inr (new_UserConfig e), [Warn NO_USER_CONFIG_WARNING]))
   \<and> (isfile e (expanduser e path) \<and> load_UserConfig e (expanduser e path) = ParseFailure \<longrightarrow>
      read_user_config e path
        = (Inl ParseError,
           [Error (INVALID_USER_CONFIG_ERROR_MESSAGE_FORMAT (expanduser e path))]))
   \<and> (isfile e (expanduser e path) \<and> load_UserConfig e (expanduser e path) = OtherFailure \<longrightarrow>
      read_user_config e path = (Inl OtherException, []))
   \<and> (\<forall>u. isfile e (expanduser e path) \<and> load_UserConfig e (expanduser e path) = Parsed u \<longrightarrow>
      read_user_config e path = (Inr u, []))
   \<and> ((\<exists>m. Error m \<in> set (snd (read_user_config e path))) \<longleftrightarrow>
        isfile e (expanduser e path) \<and> load_UserConfig e (expanduser e path) = ParseFailure)
   \<and> (\<forall>u. isfile e (expanduser e path) \<and> fst (read_user_config e path) = Inr u \<longrightarrow>
        load_UserConfig e (expanduser e path) = Parsed u)
   \<and> (\<forall>h rest. environ_HOME e = Some h \<longrightarrow>
      expanduser e (''~/'' @ rest) = rstrip_sep h @ ''/'' @ rest)
   \<and> (\<not> startswith path ''~'' \<longrightarrow> expanduser e path = path)"
proof -
  have 1: "read_user_config e path = (Inr (new_UserConfig e), [Warn NO_USER_CONFIG_WARNING])"
    if "\<not> isfile e (expanduser e path)"
    using that by (simp add: read_user_config_def)
  have 2: "read_user_config e path
        = (Inl ParseError,
           [Error (INVALID_USER_CONFIG_ERROR_MESSAGE_FORMAT (expanduser e path))])"
    if "isfile e (expanduser e path) \<and> load_UserConfig e (expanduser e path) = ParseFailure"
    using that by (simp add: read_user_config_def)
  have 3: "read_user_config e path = (Inl OtherException, [])"
    if "isfile e (expanduser e path) \<and> load_UserConfig e (expanduser e path) = OtherFailure"
    using that by (simp add: read_user_config_def)
  have 4: "read_user_config e path = (Inr u, [])"
    if "isfile e (expanduser e path) \<and> load_UserConfig e (expanduser e path) = Parsed u" for u
    using that by (simp add: read_user_config_def)
  have 5: "(\<exists>m. Error m \<in> set (snd (read_user_config e path))) \<longleftrightarrow>
        isfile e (expanduser e path) \<and> load_UserConfig e (expanduser e path) = ParseFailure"
    by (cases "isfile e (expanduser e path)"; cases "load_UserConfig e (expanduser e path)")
       (simp_all add: read_user_config_def Let_def)
  have 6: "load_UserConfig e (expanduser e path) = Parsed u"
    if "isfile e (expanduser e path) \<and> fst (read_user_config e path) = Inr u" for u
    using that
    by (cases "isfile e (expanduser e path)"; cases "load_UserConfig e (expanduser e path)")
       (simp_all add: read_user_config_def Let_def)
  have 7: "expanduser e (''~/'' @ rest) = rstrip_sep h @ ''/'' @ rest"
    if "environ_HOME e = Some h" for h rest
    using that by (rule expanduser_home)
  have 8: "expanduser e path = path" if "\<not> startswith path ''~''"
    using that by (simp add: expanduser_def)
  from 1 2 3 4 5 6 7 8 show ?thesis by blast
qed

theorem read_user_config_spec_witness:
  "\<not> isfile (user_host ''/home/u'' ''/home/u/.artman/config.yaml'' ParseFailure)
       (expanduser (user_host ''/home/u'' ''/home/u/.artman/config.yaml'' ParseFailure)
          ''~/.artman/other.yaml'')
   \<and> read_user_config (user_host ''/home/u'' ''/home/u/.artman/config.yaml'' ParseFailure)
        ''~/.artman/other.yaml'' = (Inr [], [Warn NO_USER_CONFIG_WARNING])
   \<and> expanduser (user_host ''/home/u'' ''/home/u/.artman/config.yaml'' ParseFailure)
        ''~/.artman/config.yaml'' = ''/home/u/.artman/config.yaml''
   \<and> read_user_config (user_host ''/home/u'' ''/home/u/.artman/config.yaml'' ParseFailure)
        ''~/.artman/config.yaml''
      = (Inl ParseError,
         [Error (INVALID_USER_CONFIG_ERROR_MESSAGE_FORMAT ''/home/u/.artman/config.yaml'')])
   \<and> read_user_config (user_host ''/home/u'' ''/home/u/.artman/config.yaml'' (Parsed ''cfg''))
        ''~/.artman/config.yaml'' = (Inr ''cfg'', [])
   \<and> read_user_config (user_host ''/home/u'' ''/home/u/.artman/config.yaml'' OtherFailure)
        ''~/.artman/config.yaml'' = (Inl OtherException, [])"
proof -
  let ?F = "''/home/u/.artman/config.yaml''"
  let ?E = "user_host ''/home/u'' ?F ParseFailure"
  let ?G = "user_host ''/home/u'' ?F (Parsed ''cfg'')"
  let ?H = "user_host ''/home/u'' ?F OtherFailure"
  have x1: "expanduser ?E ''~/.artman/other.yaml'' = ''/home/u/.artman/other.yaml''"
    by (simp add: expanduser_def startswith_def find_sep_from1_def user_host_def rstrip_sep_def)
  have x2: "expanduser ?E ''~/.artman/config.yaml'' = ?F"
    by (simp add: expanduser_def startswith_def find_sep_from1_def user_host_def rstrip_sep_def)
  have x3: "expanduser ?G ''~/.artman/config.yaml'' = ?F"
    by (simp add: expanduser_def startswith_def find_sep_from1_def user_host_def rstrip_sep_def)
  have x4: "expanduser ?H ''~/.artman/config.yaml'' = ?F"
    by (simp add: expanduser_def startswith_def find_sep_from1_def user_host_def rstrip_sep_def)
  have a: "\<not> isfile ?E (expanduser ?E ''~/.artman/other.yaml'')"
    unfolding x1 by (simp add: user_host_def)
  with read_user_config_spec [of ?E "''~/.artman/other.yaml''"]
  have 1: "read_user_config ?E ''~/.artman/other.yaml''
      = (Inr (new_UserConfig ?E), [Warn NO_USER_CONFIG_WARNING])" by blast
  have b: "isfile ?E (expanduser ?E ''~/.artman/config.yaml'')
      \<and> load_UserConfig ?E (expanduser ?E ''~/.artman/config.yaml'') = ParseFailure"
    unfolding x2 by (simp add: user_host_def)
  with read_user_config_spec [of ?E "''~/.artman/config.yaml''"]
  have 2: "read_user_config ?E ''~/.artman/config.yaml''
      = (Inl ParseError,
         [Error (INVALID_USER_CONFIG_ERROR_MESSAGE_FORMAT
            (expanduser ?E ''~/.artman/config.yaml''))])" by blast
  have c: "isfile ?G (expanduser ?G ''~/.artman/config.yaml'')
      \<and> load_UserConfig ?G (expanduser ?G ''~/.artman/config.yaml'') = Parsed ''cfg''"
    unfolding x3 by (simp add: user_host_def)
  with read_user_config_spec [of ?G "''~/.artman/config.yaml''"]
  have 3: "read_user_config ?G ''~/.artman/config.yaml'' = (Inr ''cfg'', [])" by blast
  have d: "isfile ?H (expanduser ?H ''~/.artman/config.yaml'')
      \<and> load_UserConfig ?H (expanduser ?H ''~/.artman/config.yaml'') = OtherFailure"
    unfolding x4 by (simp add: user_host_def)
  with read_user_config_spec [of ?H "''~/.artman/config.yaml''"]
  have 4: "read_user_config ?H ''~/.artman/config.yaml'' = (Inl OtherException, [])" by blast
  have n: "new_UserConfig ?E = []" by (simp add: user_host_def)
  from a 1 x2 2 3 4 show ?thesis unfolding x2 n by (intro conjI)
qed

text \<open>
  The reading of C8 in which every file that exists and does not load is reported in
  the log fails: on a host where the file exists and loading it raises an exception
  other than the two the loader catches, as \<^verbatim>\<open>yaml.scanner.ScannerError\<close> on a file
  that is not well-formed YAML, the exception is raised and the log is empty.
\<close>

theorem read_user_config_unlogged_counterexample:
  "isfile (user_host ''/home/u'' ''/home/u/.artman/config.yaml'' OtherFailure)
     (expanduser (user_host ''/home/u'' ''/home/u/.artman/config.yaml'' OtherFailure)
        ''~/.artman/config.yaml'')
   \<and> load_UserConfig (user_host ''/home/u'' ''/home/u/.artman/config.yaml'' OtherFailure)
       (expanduser (user_host ''/home/u'' ''/home/u/.artman/config.yaml'' OtherFailure)
          ''~/.artman/config.yaml'') = OtherFailure
   \<and> fst (read_user_config (user_host ''/home/u'' ''/home/u/.artman/config.yaml'' OtherFailure)
          ''~/.artman/config.yaml'') = Inl OtherException
   \<and> snd (read_user_config (user_host ''/home/u'' ''/home/u/.artman/config.yaml'' OtherFailure)
          ''~/.artman/config.yaml'') = []"
  by (simp add: read_user_config_def expanduser_def startswith_def find_sep_from1_def
      user_host_def rstrip_sep_def)

text \<open>
  C9. \<^verbatim>\<open>_normalize_artifact_config\<close> changes only \<^verbatim>\<open>service_yaml\<close>,
  \<^verbatim>\<open>gapic_yaml\<close> and \<^verbatim>\<open>src_proto_paths\<close>: the result is the argument with these
  three fields updated, so the name, the language, the type, the publish targets and
  every further field of the message are as they were.
\<close>

theorem normalize_artifact_config_frame:
  assumes "normalize_artifact_config a p = Inr r"
  shows "r = a\<lparr>service_yaml := service_yaml r, gapic_yaml := gapic_yaml r,
                 src_proto_paths := src_proto_paths r\<rparr>
         \<and> name r = name a \<and> language r = language a \<and> type r = type a
         \<and> publish_targets r = publish_targets a
         \<and> Artifact.more r = Artifact.more a"
proof -
  from normalize_artifact_config_cases [OF assms] obtain sy gy ps where
    r: "r = a\<lparr>service_yaml := sy, gapic_yaml := gy, src_proto_paths := ps\<rparr>" by blast
  then show ?thesis by simp
qed

theorem normalize_artifact_config_frame_witness:
  "normalize_artifact_config
     \<lparr>name = ''foo'', language = JAVA, type = GAPIC, service_yaml = ''pubsub.yaml'',
      gapic_yaml = ''/abs/gapic.yaml'', src_proto_paths = [''v1''],
      publish_targets = [\<lparr>PublishTarget.name = ''staging'', repo_url = ''u'', username = [],
                          password = [], publish_env = []\<rparr>]\<rparr> ''/c/artman.yaml''
   = Inr \<lparr>name = ''foo'', language = JAVA, type = GAPIC, service_yaml = ''/c/pubsub.yaml'',
      gapic_yaml = ''/abs/gapic.yaml'', src_proto_paths = [''/c/v1''],
      publish_targets = [\<lparr>PublishTarget.name = ''staging'', repo_url = ''u'', username = [],
                          password = [], publish_env = []\<rparr>]\<rparr>
   \<and> publish_targets \<lparr>name = ''foo'', language = JAVA, type = GAPIC,
        service_yaml = ''/c/pubsub.yaml'',
        gapic_yaml = ''/abs/gapic.yaml'', src_proto_paths = [''/c/v1''],
        publish_targets = [\<lparr>PublishTarget.name = ''staging'', repo_url = ''u'', username = [],
                          password = [], publish_env = []\<rparr>]\<rparr>
     = [\<lparr>PublishTarget.name = ''staging'', repo_url = ''u'', username = [],
                          password = [], publish_env = []\<rparr>]"
proof -
  let ?a = "\<lparr>name = ''foo'', language = JAVA, type = GAPIC, service_yaml = ''pubsub.yaml'',
      gapic_yaml = ''/abs/gapic.yaml'', src_proto_paths = [''v1''],
      publish_targets = [\<lparr>PublishTarget.name = ''staging'', repo_url = ''u'', username = [],
                          password = [], publish_env = []\<rparr>]\<rparr>"
  let ?r = "\<lparr>name = ''foo'', language = JAVA, type = GAPIC, service_yaml = ''/c/pubsub.yaml'',
      gapic_yaml = ''/abs/gapic.yaml'', src_proto_paths = [''/c/v1''],
      publish_targets = [\<lparr>PublishTarget.name = ''staging'', repo_url = ''u'', username = [],
                          password = [], publish_env = []\<rparr>]\<rparr>"
  have h: "normalize_artifact_config ?a ''/c/artman.yaml'' = Inr ?r" by code_simp
  from normalize_artifact_config_frame [OF h]
  have "publish_targets ?r = publish_targets ?a" by (elim conjE)
  with h show ?thesis by simp
qed

text \<open>
  C10. An empty \<^verbatim>\<open>service_yaml\<close> (respectively \<^verbatim>\<open>gapic_yaml\<close>) is skipped by
  normalization: it is still empty in the result, and no error of the normalization
  names that field. A message with all three path fields empty is returned as it is.
\<close>

theorem normalize_artifact_config_skips_unset:
  "(service_yaml a = [] \<longrightarrow>
      (\<forall>r. normalize_artifact_config a p = Inr r \<longrightarrow> service_yaml r = [])
      \<and> (\<forall>e. normalize_artifact_config a p = Inl e \<longrightarrow>
             e \<noteq> ValueError (traversal_message ''service_yaml'' p (dirname p))))
   \<and> (gapic_yaml a = [] \<longrightarrow>
      (\<forall>r. normalize_artifact_config a p = Inr r \<longrightarrow> gapic_yaml r = [])
      \<and> (\<forall>e. normalize_artifact_config a p = Inl e \<longrightarrow>
             e \<noteq> ValueError (traversal_message ''gapic_yaml'' p (dirname p))))
   \<and> (service_yaml a = [] \<and> gapic_yaml a = [] \<and> src_proto_paths a = [] \<longrightarrow>
      normalize_artifact_config a p = Inr a)"
proof -
  have s1: "service_yaml r = []"
    if "service_yaml a = []" "normalize_artifact_config a p = Inr r" for r
    using normalize_artifact_config_cases [OF that(2)] that(1) by auto
  have g1: "gapic_yaml r = []"
    if "gapic_yaml a = []" "normalize_artifact_config a p = Inr r" for r
    using normalize_artifact_config_cases [OF that(2)] that(1) by auto
  have s2: "e \<noteq> ValueError (traversal_message ''service_yaml'' p (dirname p))"
    if "service_yaml a = []" "normalize_artifact_config a p = Inl e" for e
    using normalize_artifact_config_Inl [OF that(2)] that(1)
      traversal_message_field_neq [of p "dirname p"]
    by (auto dest!: normalize_path_Inl normalize_src_proto_paths_Inl)
  have g2: "e \<noteq> ValueError (traversal_message ''gapic_yaml'' p (dirname p))"
    if "gapic_yaml a = []" "normalize_artifact_config a p = Inl e" for e
    using normalize_artifact_config_Inl [OF that(2)] that(1)
      traversal_message_field_neq [of p "dirname p"]
    by (auto dest!: normalize_path_Inl normalize_src_proto_paths_Inl)
  have n: "normalize_artifact_config a p = Inr a"
    if "service_yaml a = []" "gapic_yaml a = []" "src_proto_paths a = []"
    using that by (simp add: normalize_artifact_config_def)
  from s1 s2 g1 g2 n show ?thesis by blast
qed

theorem normalize_artifact_config_skips_unset_witness:
  "service_yaml (new_Artifact\<lparr>gapic_yaml := ''../g.yaml''\<rparr>) = []
   \<and> normalize_artifact_config (new_Artifact\<lparr>gapic_yaml := ''../g.yaml''\<rparr>) ''/c/artman.yaml''
       = Inl (ValueError (traversal_message ''gapic_yaml'' ''/c/artman.yaml'' ''/c''))
   \<and> ValueError (traversal_message ''gapic_yaml'' ''/c/artman.yaml'' ''/c'')
       \<noteq> ValueError (traversal_message ''service_yaml'' ''/c/artman.yaml'' ''/c'')
   \<and> gapic_yaml (new_Artifact\<lparr>src_proto_paths := [''v1'']\<rparr>) = []
   \<and> normalize_artifact_config (new_Artifact\<lparr>src_proto_paths := [''v1'']\<rparr>) ''/c/artman.yaml''
       = Inr (new_Artifact\<lparr>src_proto_paths := [''/c/v1'']\<rparr>)
   \<and> gapic_yaml (new_Artifact\<lparr>src_proto_paths := [''/c/v1'']\<rparr>) = []
   \<and> normalize_artifact_config new_Artifact ''/c/artman.yaml'' = Inr new_Artifact"
proof -
  let ?P = "''/c/artman.yaml''"
  let ?a = "new_Artifact\<lparr>gapic_yaml := ''../g.yaml''\<rparr>"
  let ?b = "new_Artifact\<lparr>src_proto_paths := [''v1'']\<rparr>"
  have d: "dirname ?P = ''/c''" by code_simp
  have a1: "service_yaml ?a = []" by (simp add: new_Artifact_def)
  have a2: "normalize_artifact_config ?a ?P
       = Inl (ValueError (traversal_message ''gapic_yaml'' ?P ''/c''))" by code_simp
  from normalize_artifact_config_skips_unset [of ?a ?P] a1 a2
  have a3: "ValueError (traversal_message ''gapic_yaml'' ?P ''/c'')
       \<noteq> ValueError (traversal_message ''service_yaml'' ?P (dirname ?P))"
    by blast
  have b1: "gapic_yaml ?b = []" by (simp add: new_Artifact_def)
  have b2: "normalize_artifact_config ?b ?P = Inr (new_Artifact\<lparr>src_proto_paths := [''/c/v1'']\<rparr>)"
    by code_simp
  from normalize_artifact_config_skips_unset [of ?b ?P] b1 b2
  have b3: "gapic_yaml (new_Artifact\<lparr>src_proto_paths := [''/c/v1'']\<rparr>) = []"
    by blast
  have "service_yaml new_Artifact = [] \<and> gapic_yaml new_Artifact = []
      \<and> src_proto_paths new_Artifact = []" by (simp add: new_Artifact_def)
  with normalize_artifact_config_skips_unset [of new_Artifact ?P]
  have c: "normalize_artifact_config new_Artifact ?P = Inr new_Artifact" by blast
  from a1 a2 a3 b1 b2 b3 c d show ?thesis by simp
qed

end
